theory Spec2Isabelle
  imports Complex_Main "HOL-Library.Sublist" "HOL-Library.AList"
begin

section \<open>Python values, exceptions and strings\<close>

text \<open>
  A Python \<open>str\<close> is modelled as a \<open>string\<close>, one \<open>char\<close> per code point, so the
  model covers the strings whose code points are below 256. A Python float is given by
  a real number: \<open>VFloat r\<close> is the double nearest to \<open>r\<close>, which is infinite when
  \<open>r\<close> is beyond the range of doubles, so that no rounding is computed; NaN is not
  represented. Scores are reals and their comparisons are exact.

  An exception is a value carrying its class name and the text \<open>str(e)\<close> gives.
  Only instances of \<open>Exception\<close> are modelled (no \<open>KeyboardInterrupt\<close> or
  \<open>SystemExit\<close>). A computation that may raise returns \<open>exn + 'a\<close>.
\<close>

datatype exn = Exn (exn_class: string) (exn_str: string)

text \<open>\<open>xs[start:]\<close> for a Python list and an integer \<open>start\<close>.\<close>

definition py_slice_from :: "'a list \<Rightarrow> int \<Rightarrow> 'a list" where
  "py_slice_from xs start =
     (if start < 0 then drop (nat (max 0 (int (length xs) + start))) xs
      else drop (nat start) xs)"

text \<open>A list comprehension \<open>[f(x) for x in xs]\<close> whose body may raise.\<close>

fun map_raise :: "('a \<Rightarrow> exn + 'b) \<Rightarrow> 'a list \<Rightarrow> exn + 'b list" where
  "map_raise f [] = Inr []"
| "map_raise f (x # xs) =
     (case f x of
        Inl e \<Rightarrow> Inl e
      | Inr y \<Rightarrow> (case map_raise f xs of Inl e \<Rightarrow> Inl e | Inr ys \<Rightarrow> Inr (y # ys)))"

text \<open>
  The values a metadata or payload dictionary holds. \<open>VNpInt\<close>, \<open>VNpFloat\<close> and
  \<open>VNpComplex\<close> are the instances of \<open>np.number\<close>: numpy integer scalars, numpy
  floating scalars, and numpy complex scalars with their real and imaginary parts
  (finite). \<open>VOther s\<close> is a value of any other type (a list, a dict, a date, a Python
  complex, a numpy bool), known by the text \<open>s\<close> that \<open>str\<close> gives for it.
\<close>

datatype pyval =
    VNone
  | VBool bool
  | VInt int
  | VFloat real
  | VStr string
  | VNpInt int
  | VNpFloat real
  | VNpComplex real real
  | VOther string

text \<open>A \<open>dict\<close> with string keys: an association list in insertion order, keys distinct.\<close>

type_synonym pydict = "(string \<times> pyval) list"

text \<open>
  \<open>str.isdigit\<close> on one character: among the code points below 256 these are the
  ten ASCII digits and the superscripts two, three and one (U+00B2, U+00B3, U+00B9).
  Only the ASCII digits are decimal digits, which \<open>int\<close> and \<open>float\<close> accept.
\<close>

definition is_decimal_char :: "char \<Rightarrow> bool" where
  "is_decimal_char c = (48 \<le> (of_char c :: nat) \<and> (of_char c :: nat) \<le> 57)"

definition isdigit_char :: "char \<Rightarrow> bool" where
  "isdigit_char c = (is_decimal_char c \<or> c = CHR 0xB2 \<or> c = CHR 0xB3 \<or> c = CHR 0xB9)"

definition isdigit :: "string \<Rightarrow> bool" where
  "isdigit s = (s \<noteq> [] \<and> list_all isdigit_char s)"

definition py_repr :: "string \<Rightarrow> string" where
  "py_repr s = [CHR 0x27] @ s @ [CHR 0x27]"

definition digit_val :: "char \<Rightarrow> nat" where
  "digit_val c = of_char c - 48"

definition dec_val :: "string \<Rightarrow> nat" where
  "dec_val s = foldl (\<lambda>a c. 10 * a + digit_val c) 0 s"

text \<open>\<open>str\<close> of an integer.\<close>

fun str_nat :: "nat \<Rightarrow> string" where
  "str_nat n =
     (if n < 10 then [''0123456789'' ! n]
      else str_nat (n div 10) @ [''0123456789'' ! (n mod 10)])"

declare str_nat.simps [simp del]

definition str_int :: "int \<Rightarrow> string" where
  "str_int i = (if i < 0 then ''-'' @ str_nat (nat (- i)) else str_nat (nat i))"

text \<open>
  \<open>int(s)\<close> and \<open>float(s)\<close> on the strings that reach them in \<open>clean_metadata\<close>:
  every character but at most one dot satisfies \<open>isdigit\<close>. \<open>int\<close> first counts
  the leading decimal digits and raises \<open>ValueError\<close> beyond 4300 of them (CPython
  3.11); then both raise \<open>ValueError\<close> when a character is not a decimal digit.
  \<open>float\<close> gives the double nearest to the decimal value, which \<open>VFloat\<close> of that
  value stands for. \<open>int(x)\<close> of a float cuts the fraction off.
\<close>

definition py_int :: "string \<Rightarrow> exn + int" where
  "py_int s =
     (let digits = length (takeWhile is_decimal_char s)
      in if 4300 < digits
         then Inl (Exn ''ValueError''
                (''Exceeds the limit (4300 digits) for integer string conversion: value has ''
                 @ str_nat digits
                 @ '' digits; use sys.set_int_max_str_digits() to increase the limit''))
         else if s \<noteq> [] \<and> list_all is_decimal_char s then Inr (int (dec_val s))
         else Inl (Exn ''ValueError''
                (''invalid literal for int() with base 10: '' @ py_repr s)))"

definition py_trunc :: "real \<Rightarrow> int" where
  "py_trunc r = (if 0 \<le> r then \<lfloor>r\<rfloor> else \<lceil>r\<rceil>)"

definition py_float :: "string \<Rightarrow> exn + real" where
  "py_float s =
     (let ip = takeWhile (\<lambda>c. c \<noteq> CHR ''.'') s;
          fp = drop 1 (dropWhile (\<lambda>c. c \<noteq> CHR ''.'') s)
      in if ip @ fp \<noteq> [] \<and> list_all is_decimal_char (ip @ fp)
         then Inr (real (dec_val ip) + real (dec_val fp) / 10 ^ length fp)
         else Inl (Exn ''ValueError'' (''could not convert string to float: '' @ py_repr s)))"

section \<open>Vector store adapter (src/qdrant\_client.py)\<close>

subsection \<open>clean\_metadata\<close>

text \<open>
  The branch taken for one value, in the order of the source's tests. An instance of
  \<open>np.number\<close> that is not floating goes through \<open>int\<close>: for a complex scalar numpy
  drops the imaginary part (with a warning) and cuts the fraction of the real part off.
\<close>

fun clean_value :: "pyval \<Rightarrow> exn + pyval" where
  "clean_value VNone = Inr VNone"
| "clean_value (VNpFloat r) = Inr (VFloat r)"
| "clean_value (VNpInt i) = Inr (VInt i)"
| "clean_value (VNpComplex re im) = Inr (VInt (py_trunc re))"
| "clean_value (VStr s) =
     (if isdigit (remove1 (CHR ''.'') s)
      then (if CHR ''.'' \<in> set s
            then (case py_float s of Inl e \<Rightarrow> Inl e | Inr r \<Rightarrow> Inr (VFloat r))
            else (case py_int s of Inl e \<Rightarrow> Inl e | Inr i \<Rightarrow> Inr (VInt i)))
      else Inr (VStr s))"
| "clean_value (VInt i) = Inr (VInt i)"
| "clean_value (VFloat r) = Inr (VFloat r)"
| "clean_value (VBool b) = Inr (VBool b)"
| "clean_value (VOther s) = Inr (VStr s)"

text \<open>The loop over \<open>metadata.items()\<close>; \<open>cleaned[key] = v\<close> is \<open>AList.update\<close>.\<close>

fun clean_loop :: "pydict \<Rightarrow> pydict \<Rightarrow> exn + pydict" where
  "clean_loop [] cleaned = Inr cleaned"
| "clean_loop ((key, val) # rest) cleaned =
     (case clean_value val of
        Inl e \<Rightarrow> Inl e
      | Inr v \<Rightarrow> clean_loop rest (AList.update key v cleaned))"

definition clean_metadata :: "pydict \<Rightarrow> exn + pydict" where
  "clean_metadata metadata = clean_loop metadata []"

text \<open>The scalar types of the vector store: null, int, float, string, bool.\<close>

fun is_scalar :: "pyval \<Rightarrow> bool" where
  "is_scalar VNone = True"
| "is_scalar (VBool b) = True"
| "is_scalar (VInt i) = True"
| "is_scalar (VFloat r) = True"
| "is_scalar (VStr s) = True"
| "is_scalar (VNpInt i) = False"
| "is_scalar (VNpFloat r) = False"
| "is_scalar (VNpComplex re im) = False"
| "is_scalar (VOther s) = False"

text \<open>
  The conversion of C7, worded as a specification. A digit text is a string of digit
  characters with at most one dot and at least one digit character; a decimal text is
  one whose digit characters are all decimal digits, and its value is its digits read
  as a whole number, divided by ten to the number of digits after the dot. The raising
  texts are the digit texts that \<open>int\<close> or \<open>float\<close> refuses: those that are not
  decimal texts, and those without a dot that have more than 4300 digits. A value is
  convertible unless it is a raising text.
\<close>

definition digit_text :: "string \<Rightarrow> bool" where
  "digit_text s =
     (filter (\<lambda>c. c \<noteq> CHR ''.'') s \<noteq> []
      \<and> list_all isdigit_char (filter (\<lambda>c. c \<noteq> CHR ''.'') s)
      \<and> length (filter (\<lambda>c. c = CHR ''.'') s) \<le> 1)"

definition decimal_text :: "string \<Rightarrow> bool" where
  "decimal_text s =
     (filter (\<lambda>c. c \<noteq> CHR ''.'') s \<noteq> []
      \<and> list_all is_decimal_char (filter (\<lambda>c. c \<noteq> CHR ''.'') s)
      \<and> length (filter (\<lambda>c. c = CHR ''.'') s) \<le> 1)"

definition raising_text :: "string \<Rightarrow> bool" where
  "raising_text s =
     (digit_text s \<and> (\<not> decimal_text s \<or> (CHR ''.'' \<notin> set s \<and> 4300 < length s)))"

fun convertible :: "pyval \<Rightarrow> bool" where
  "convertible (VStr s) = (\<not> raising_text s)"
| "convertible v = True"

definition decimal_value :: "string \<Rightarrow> real" where
  "decimal_value s =
     real (dec_val (filter (\<lambda>c. c \<noteq> CHR ''.'') s))
       / 10 ^ length (drop 1 (dropWhile (\<lambda>c. c \<noteq> CHR ''.'') s))"

fun coerced :: "pyval \<Rightarrow> pyval" where
  "coerced VNone = VNone"
| "coerced (VBool b) = VBool b"
| "coerced (VInt i) = VInt i"
| "coerced (VFloat r) = VFloat r"
| "coerced (VStr s) =
     (if decimal_text s
      then (if CHR ''.'' \<in> set s then VFloat (decimal_value s) else VInt (int (dec_val s)))
      else VStr s)"
| "coerced (VNpInt i) = VInt i"
| "coerced (VNpFloat r) = VFloat r"
| "coerced (VNpComplex re im) = VInt (py_trunc re)"
| "coerced (VOther s) = VStr s"

subsection \<open>Search\<close>

type_synonym vector = "real list"

text \<open>
  A scored point as the store returns it (\<open>hit.id\<close>, \<open>hit.score\<close>, \<open>hit.payload\<close>)
  and a formatted result, the dictionary with the keys text, metadata, score and id.
\<close>

record hit =
  point_id :: int
  score :: real
  payload :: pydict

record result =
  res_text :: pyval
  res_metadata :: pydict
  res_score :: real
  res_id :: int

definition key_error :: "string \<Rightarrow> exn" where
  "key_error k = Exn ''KeyError'' (py_repr k)"

text \<open>The dictionary built from one hit; \<open>hit.payload["text"]\<close> raises when the key is missing.\<close>

definition format_hit :: "hit \<Rightarrow> exn + result" where
  "format_hit h =
     (case map_of (payload h) ''text'' of
        None \<Rightarrow> Inl (key_error ''text'')
      | Some t \<Rightarrow>
          Inr \<lparr>res_text = t,
               res_metadata = filter (\<lambda>(k, v). k \<noteq> ''text'') (payload h),
               res_score = score h,
               res_id = point_id h\<rparr>)"

text \<open>
  The store's \<open>client.search\<close> is a collaborator, taken as a parameter: from the
  query vector, the optional query text, the optional category of the filter and the
  limit it gives the hits in the store's order, or raises.
\<close>

type_synonym client_search = "vector \<Rightarrow> string option \<Rightarrow> string option \<Rightarrow> int \<Rightarrow> exn + hit list"

text \<open>The loop of \<open>semantic_search\<close> over the hits, \<open>filtered\<close> being \<open>filtered_results\<close>.\<close>

fun filter_hits :: "real \<Rightarrow> int \<Rightarrow> hit list \<Rightarrow> result list \<Rightarrow> exn + result list" where
  "filter_hits threshold limit [] filtered = Inr filtered"
| "filter_hits threshold limit (h # hs) filtered =
     (if score h \<ge> threshold
      then (case format_hit h of
              Inl e \<Rightarrow> Inl e
            | Inr r \<Rightarrow>
                (if int (length (filtered @ [r])) \<ge> limit then Inr (filtered @ [r])
                 else filter_hits threshold limit hs (filtered @ [r])))
      else filter_hits threshold limit hs filtered)"

definition semantic_search ::
  "client_search \<Rightarrow> vector \<Rightarrow> string option \<Rightarrow> real \<Rightarrow> int \<Rightarrow> exn + result list" where
  "semantic_search client query_embedding query threshold limit =
     (case client query_embedding None None (limit * 2) of
        Inl e \<Rightarrow> Inl e
      | Inr results \<Rightarrow> filter_hits threshold limit results [])"

definition hybrid_search ::
  "client_search \<Rightarrow> string \<Rightarrow> vector \<Rightarrow> string option \<Rightarrow> int \<Rightarrow> exn + result list" where
  "hybrid_search client query query_embedding category_filter limit =
     (let search_filter =
            (case category_filter of
               None \<Rightarrow> None
             | Some c \<Rightarrow> (if c \<noteq> [] then Some c else None))
      in case client query_embedding (Some query) search_filter limit of
           Inl e \<Rightarrow> Inl e
         | Inr results \<Rightarrow> map_raise format_hit results)"

text \<open>
  The keyword arguments \<open>search\<close> passes on: the three names its two targets know,
  each given or not. A name the target does not take makes the call raise
  \<open>TypeError\<close>; a name that is not given takes the target's default.
\<close>

record kwargs =
  kw_threshold :: "real option"
  kw_limit :: "int option"
  kw_category_filter :: "string option"

definition unexpected_keyword :: "string \<Rightarrow> string \<Rightarrow> exn" where
  "unexpected_keyword f k =
     Exn ''TypeError''
       (''QdrantVectorStore.'' @ f @ ''() got an unexpected keyword argument '' @ py_repr k)"

definition search ::
  "client_search \<Rightarrow> vector \<Rightarrow> string option \<Rightarrow> string \<Rightarrow> kwargs \<Rightarrow> exn + result list" where
  "search client query_embedding query mode kw =
     (if mode = ''semantic'' then
        (if kw_category_filter kw \<noteq> None
         then Inl (unexpected_keyword ''semantic_search'' ''category_filter'')
         else semantic_search client query_embedding query
                (case kw_threshold kw of None \<Rightarrow> 0.7 | Some t \<Rightarrow> t)
                (case kw_limit kw of None \<Rightarrow> 3 | Some l \<Rightarrow> l))
      else if mode = ''hybrid'' then
        (case query of
           None \<Rightarrow> Inl (Exn ''ValueError'' ''Query is required for hybrid search'')
         | Some q \<Rightarrow>
             (if kw_threshold kw \<noteq> None
              then Inl (unexpected_keyword ''hybrid_search'' ''threshold'')
              else hybrid_search client q query_embedding (kw_category_filter kw)
                     (case kw_limit kw of None \<Rightarrow> 5 | Some l \<Rightarrow> l)))
      else Inl (Exn ''ValueError''
                 (''Invalid search mode: '' @ mode @ ''. Use 'semantic' or '' @ py_repr ''hybrid'')))"

text \<open>
  The two errors of \<open>search\<close> about the mode: the spec's \<open>InvalidModeError\<close> is the
  \<open>ValueError\<close> of the last branch.
\<close>

definition invalid_mode_error :: "string \<Rightarrow> exn" where
  "invalid_mode_error mode =
     Exn ''ValueError'' (''Invalid search mode: '' @ mode @ ''. Use 'semantic' or '' @ py_repr ''hybrid'')"

definition query_required_error :: exn where
  "query_required_error = Exn ''ValueError'' ''Query is required for hybrid search''"

text \<open>
  Example data: a store of three points, whose client gives the first \<open>limit\<close> hits,
  a store out of reach, whose client raises, and a client that gives the three hits
  whatever the limit.
\<close>

definition example_hits :: "hit list" where
  "example_hits =
     [\<lparr>point_id = 4, score = 0.9, payload = [(''text'', VStr ''q1''), (''category'', VStr ''a'')]\<rparr>,
      \<lparr>point_id = 7, score = 0.8, payload = [(''text'', VStr ''q2'')]\<rparr>,
      \<lparr>point_id = 1, score = 0.5, payload = [(''text'', VStr ''q3'')]\<rparr>]"

definition example_client :: client_search where
  "example_client v qt f k = Inr (take (nat k) example_hits)"

definition failing_client :: client_search where
  "failing_client v qt f k = Inl (Exn ''ResponseHandlingException'' ''Connection refused'')"


definition no_kwargs :: kwargs where
  "no_kwargs = \<lparr>kw_threshold = None, kw_limit = None, kw_category_filter = None\<rparr>"

subsection \<open>upload\_data\<close>

text \<open>A point as it is sent to the store: \<open>PointStruct(id, vector, payload)\<close>.\<close>

record point =
  pt_id :: int
  pt_vector :: vector
  pt_payload :: pydict

text \<open>The payload \<open>{"text": text, **metadata}\<close>.\<close>

definition make_payload :: "string \<Rightarrow> pydict \<Rightarrow> pydict" where
  "make_payload text metadata =
     foldl (\<lambda>d (k, v). AList.update k v d) [(''text'', VStr text)] metadata"

text \<open>\<open>range(0, stop, step)\<close> for \<open>stop \<ge> 0\<close>, as the list of its values.\<close>

definition py_range0 :: "int \<Rightarrow> int \<Rightarrow> exn + int list" where
  "py_range0 stop step =
     (if step = 0 then Inl (Exn ''ValueError'' ''range() arg 3 must not be zero'')
      else if step < 0 then Inr []
      else Inr (map (\<lambda>j. int j * step) [0..<nat ((stop + step - 1) div step)]))"

text \<open>\<open>xs[start:stop]\<close> and \<open>enumerate(xs, start)\<close>.\<close>

definition py_slice :: "'a list \<Rightarrow> int \<Rightarrow> int \<Rightarrow> 'a list" where
  "py_slice xs start stop =
     (let n = int (length xs);
          s = (if start < 0 then max 0 (n + start) else min n start);
          e = (if stop < 0 then max 0 (n + stop) else min n stop)
      in take (nat (e - s)) (drop (nat s) xs))"

definition py_enumerate :: "int \<Rightarrow> 'a list \<Rightarrow> (int \<times> 'a) list" where
  "py_enumerate start xs = zip (map (\<lambda>j. start + int j) [0..<length xs]) xs"

text \<open>The points of the batch that starts at index \<open>i\<close>.\<close>

definition batch_points :: "vector list \<Rightarrow> pydict list \<Rightarrow> int \<Rightarrow> int \<Rightarrow> point list" where
  "batch_points embeddings payloads i batch_size =
     map (\<lambda>(idx, (embedding, pl)). \<lparr>pt_id = idx, pt_vector = embedding, pt_payload = pl\<rparr>)
       (py_enumerate i
          (zip (py_slice embeddings i (i + batch_size)) (py_slice payloads i (i + batch_size))))"

text \<open>
  What \<open>upload_data\<close> prints: a line of text, or the sample line with the batch's
  first point (whose rendering is the store library's).
\<close>

datatype printed = Line string | SampleLine point

text \<open>
  The store's \<open>client.upload_points\<close> is a collaborator, taken as a parameter: from
  the state of the store and a batch it gives the exception it raises, if any, and the
  state it leaves. The loop over the batch starts stops at the first exception, prints
  the two lines and raises it again.
\<close>

type_synonym 'st upload_points = "'st \<Rightarrow> point list \<Rightarrow> exn option \<times> 'st"

fun upload_loop ::
  "'st upload_points \<Rightarrow> vector list \<Rightarrow> pydict list \<Rightarrow> int \<Rightarrow> 'st \<Rightarrow> int list
     \<Rightarrow> (exn + unit) \<times> 'st \<times> printed list" where
  "upload_loop up embeddings payloads batch_size st [] = (Inr (), st, [])"
| "upload_loop up embeddings payloads batch_size st (i # rest) =
     (let batch = batch_points embeddings payloads i batch_size
      in case up st batch of
           (None, st') \<Rightarrow> upload_loop up embeddings payloads batch_size st' rest
         | (Some e, st') \<Rightarrow>
             (Inl e, st',
              [Line (''Error uploading batch '' @ str_int (i div batch_size) @ '': '' @ exn_str e),
               (case batch of
                  [] \<Rightarrow> Line ''Problematic batch sample: Empty''
                | p # _ \<Rightarrow> SampleLine p)]))"

definition upload_data ::
  "'st upload_points \<Rightarrow> 'st \<Rightarrow> string list \<Rightarrow> vector list \<Rightarrow> pydict list \<Rightarrow> int
     \<Rightarrow> (exn + unit) \<times> 'st \<times> printed list" where
  "upload_data up st texts embeddings metadatas batch_size =
     (case map_raise clean_metadata metadatas of
        Inl e \<Rightarrow> (Inl e, st, [])
      | Inr cleaned_metadatas \<Rightarrow>
          (let payloads = map (\<lambda>(text, metadata). make_payload text metadata)
                            (zip texts cleaned_metadatas)
           in case py_range0 (int (length embeddings)) batch_size of
                Inl e \<Rightarrow> (Inl e, st, [])
              | Inr starts \<Rightarrow> upload_loop up embeddings payloads batch_size st starts))"

text \<open>
  A model of the store, for the examples and for the claim about ids: a collection
  holds its points by id, \<open>upload_points\<close> stores each point of the batch under its
  id, in place of a point already held under that id, and a batch that the service
  rejects (\<open>rejects\<close> gives the exception) raises and leaves the collection as it was.
  The state also records the batches received, one entry per call.
\<close>

type_synonym collection = "(int \<times> point) list"

definition upsert :: "point list \<Rightarrow> collection \<Rightarrow> collection" where
  "upsert batch coll = fold (\<lambda>p c. AList.update (pt_id p) p c) batch coll"

definition store_upload ::
  "(point list \<Rightarrow> exn option) \<Rightarrow> (collection \<times> point list list) upload_points" where
  "store_upload rejects st batch =
     (case rejects batch of
        Some e \<Rightarrow> (Some e, (fst st, snd st @ [batch]))
      | None \<Rightarrow> (None, (upsert batch (fst st), snd st @ [batch])))"

text \<open>
  The state the store is in after the given batches were uploaded one call each, in
  order, when every call succeeded.
\<close>

fun uploaded :: "'st upload_points \<Rightarrow> 'st \<Rightarrow> point list list \<Rightarrow> 'st option" where
  "uploaded up st [] = Some st"
| "uploaded up st (b # bs) =
     (case up st b of
        (None, st') \<Rightarrow> uploaded up st' bs
      | (Some e, st') \<Rightarrow> None)"

text \<open>The point that record \<open>t\<close> of a call becomes.\<close>

definition record_point :: "vector list \<Rightarrow> pydict list \<Rightarrow> nat \<Rightarrow> point" where
  "record_point embeddings payloads t =
     \<lparr>pt_id = int t, pt_vector = embeddings ! t, pt_payload = payloads ! t\<rparr>"

text \<open>
  Example data: three records to upload, and a service that rejects every batch holding
  a point with the given id.
\<close>

definition rejects_id :: "int \<Rightarrow> point list \<Rightarrow> exn option" where
  "rejects_id j batch =
     (if j \<in> set (map pt_id batch) then Some (Exn ''UnexpectedResponse'' ''timed out'') else None)"

definition example_texts :: "string list" where
  "example_texts = [''a'', ''b'', ''c'']"

definition example_embeddings :: "vector list" where
  "example_embeddings = [[1], [2], [3]]"

definition example_metadatas :: "pydict list" where
  "example_metadatas = [[(''category'', VStr ''x'')], [(''n'', VStr ''7'')], []]"

definition example_points :: "point list" where
  "example_points =
     [\<lparr>pt_id = 0, pt_vector = [1], pt_payload = [(''text'', VStr ''a''), (''category'', VStr ''x'')]\<rparr>,
      \<lparr>pt_id = 1, pt_vector = [2], pt_payload = [(''text'', VStr ''b''), (''n'', VInt 7)]\<rparr>,
      \<lparr>pt_id = 2, pt_vector = [3], pt_payload = [(''text'', VStr ''c'')]\<rparr>]"

section \<open>Conversation store (src/redis\_memory.py)\<close>

text \<open>
  \<open>RedisMemory.get_history\<close>. The key-value backend and the JSON decoder are
  collaborators: \<open>lrange\<close> is what \<open>self.redis.lrange(self.key, 0, -1)\<close> gives
  (the stored messages, oldest first, or an exception) and \<open>loads\<close> is
  \<open>json.loads\<close>. The result is the returned list with the lines printed.
\<close>

definition get_history ::
  "(string \<Rightarrow> exn + 'a) \<Rightarrow> exn + string list \<Rightarrow> int option \<Rightarrow> 'a list \<times> string list" where
  "get_history loads lrange limit =
     (case lrange of
        Inl e \<Rightarrow> ([], [''Error retrieving history: '' @ exn_str e])
      | Inr messages \<Rightarrow>
          (case map_raise loads messages of
             Inl e \<Rightarrow> ([], [''Error retrieving history: '' @ exn_str e])
           | Inr history \<Rightarrow>
               (case limit of
                  Some l \<Rightarrow> (py_slice_from history (- l), [])
                | None \<Rightarrow> (history, []))))"

section \<open>Response pipeline (src/rag\_chain.py)\<close>

subsection \<open>String operations\<close>

text \<open>
  \<open>str.lower\<close> on the code points below 256: the letters A to Z, and the
  letters U+00C0 to U+00DE but the multiplication sign, move up by 32.
\<close>

definition lower_char :: "char \<Rightarrow> char" where
  "lower_char c =
     (let n = (of_char c :: nat)
      in if (65 \<le> n \<and> n \<le> 90) \<or> (192 \<le> n \<and> n \<le> 222 \<and> n \<noteq> 215)
         then char_of (n + 32) else c)"

definition lower :: "string \<Rightarrow> string" where
  "lower s = map lower_char s"

text \<open>\<open>s.strip(chars)\<close> and \<open>sep.join(xs)\<close>.\<close>

definition strip :: "string \<Rightarrow> string \<Rightarrow> string" where
  "strip chars s =
     rev (dropWhile (\<lambda>c. c \<in> set chars) (rev (dropWhile (\<lambda>c. c \<in> set chars) s)))"

fun join :: "string \<Rightarrow> string list \<Rightarrow> string" where
  "join sep [] = []"
| "join sep [x] = x"
| "join sep (x # y # ys) = x @ sep @ join sep (y # ys)"

text \<open>
  \<open>random.choice(xs)\<close>, the random source being the number \<open>rnd\<close>; it raises on
  an empty list.
\<close>

definition choice :: "nat \<Rightarrow> 'a list \<Rightarrow> exn + 'a" where
  "choice rnd xs =
     (if xs = [] then Inl (Exn ''IndexError'' ''Cannot choose from an empty sequence'')
      else Inr (xs ! (rnd mod length xs)))"

text \<open>
  The rendering of floats is the Python runtime's and is taken as a parameter:
  \<open>fmt_percent\<close> is the format \<open>.0%\<close>, \<open>fmt_float\<close> is \<open>str\<close> of a float and
  \<open>fmt_complex\<close> is \<open>str\<close> of a numpy complex scalar, from its two parts.
\<close>

record float_format =
  fmt_percent :: "real \<Rightarrow> string"
  fmt_float :: "real \<Rightarrow> string"
  fmt_complex :: "real \<Rightarrow> real \<Rightarrow> string"

fun py_str :: "float_format \<Rightarrow> pyval \<Rightarrow> string" where
  "py_str fmt VNone = ''None''"
| "py_str fmt (VBool b) = (if b then ''True'' else ''False'')"
| "py_str fmt (VInt i) = str_int i"
| "py_str fmt (VFloat r) = fmt_float fmt r"
| "py_str fmt (VStr s) = s"
| "py_str fmt (VNpInt i) = str_int i"
| "py_str fmt (VNpFloat r) = fmt_float fmt r"
| "py_str fmt (VNpComplex re im) = fmt_complex fmt re im"
| "py_str fmt (VOther s) = s"

subsection \<open>The pipeline\<close>

text \<open>
  The fixed texts. They hold code points above 255 (the decorations before the words),
  written here as the bytes of the source file; the pipeline returns these texts and
  never inspects them.
\<close>

definition greeting_responses :: "string list" where
  "greeting_responses =
     [[CHR 0xC3, CHR 0xB0, CHR 0xC5, CHR 0xB8, CHR 0xE2, CHR 0x80, CHR 0xBA]
        @ [CHR 0xC3, CHR 0xAF, CHR 0xC2, CHR 0xB8]
        @ '' Welcome to [Brand] Support! How can I help with:'' @ [CHR 0x0A]
        @ ''- Orders'' @ [CHR 0x0A] @ ''- Returns'' @ [CHR 0x0A] @ ''- Payments''
        @ [CHR 0x0A] @ ''- Account issues'',
      [CHR 0xC3, CHR 0xB0, CHR 0xC5, CHR 0xB8, CHR 0xE2, CHR 0x80, CHR 0x98]
        @ [CHR 0xE2, CHR 0x80, CHR 0xB9] @ '' Hello! I'' @ [CHR 0x27]
        @ ''m your shopping assistant. What can I help you with today?'',
      [CHR 0xC3, CHR 0xB0, CHR 0xC5, CHR 0xB8, CHR 0xC5, CHR 0x92, CHR 0xC5]
        @ [CHR 0xB8] @ '' Welcome back! Need help with your recent order or account?'']"

definition fallback_responses :: "string list" where
  "fallback_responses =
     [''Let me check... I couldn'' @ [CHR 0x27] @ ''t find exact information, but try:''
        @ [CHR 0x0A] @ ''1. Our help center: [link]'' @ [CHR 0x0A]
        @ ''2. Email support@example.com'',
      ''I'' @ [CHR 0x27] @ ''m still learning about this. For immediate help:''
        @ [CHR 0x0A, CHR 0xC3, CHR 0xA2, CHR 0xE2, CHR 0x82, CHR 0xAC, CHR 0xC2]
        @ [CHR 0xA2] @ '' Visit our FAQ''
        @ [CHR 0x0A, CHR 0xC3, CHR 0xA2, CHR 0xE2, CHR 0x82, CHR 0xAC, CHR 0xC2]
        @ [CHR 0xA2] @ '' Contact live chat'',
      ''This topic isn'' @ [CHR 0x27]
        @ ''t in my knowledge base yet. Our team can help at support@example.com'']"

definition apology_prefix :: string where
  "apology_prefix =
     [CHR 0xC3, CHR 0xA2, CHR 0xC5, CHR 0xA1, CHR 0xC2, CHR 0xA0, CHR 0xC3]
       @ [CHR 0xAF, CHR 0xC2, CHR 0xB8]
       @ '' Sorry, I encountered an error. Please try again later.'' @ [CHR 0x0A]
       @ ''(Error: ''"

definition greetings :: "string list" where
  "greetings =
     [''hello'', ''hi'', ''hey'', ''greetings'',
      ''good morning'', ''good afternoon'', ''good evening'',
      ''namaste'', ''salam'', ''hola'', ''hi there'', ''helloo'']"

definition is_greeting :: "string \<Rightarrow> bool" where
  "is_greeting text =
     (let text = strip '' ?!.,'' (lower text)
      in list_ex (\<lambda>greet. sublist greet text) greetings)"

text \<open>
  The collaborators of a pipeline: the embedding client, the client of the vector
  store, and the chain that fills the prompt with a question and a context and calls
  the language model.
\<close>

record rag_pipeline =
  embedder :: "string \<Rightarrow> exn + vector"
  vector_db :: client_search
  llm_chain :: "string \<Rightarrow> string \<Rightarrow> exn + string"

record response =
  answer :: string
  sources :: "result list"

text \<open>The calls a pipeline makes to its collaborators, in order.\<close>

datatype call = EmbedCall string | SearchCall vector | LLMCall string string

definition metadata_get :: "pydict \<Rightarrow> string \<Rightarrow> string \<Rightarrow> pyval" where
  "metadata_get md key dflt =
     (case map_of md key of None \<Rightarrow> VStr dflt | Some v \<Rightarrow> v)"

definition format_context :: "float_format \<Rightarrow> result list \<Rightarrow> string \<Rightarrow> string" where
  "format_context fmt results query =
     join [CHR 0x0A]
       (map (\<lambda>(i, res).
               ''MATCH #'' @ str_int i @ '' (Relevance: '' @ fmt_percent fmt (res_score res)
                 @ ''):'' @ [CHR 0x0A]
               @ ''QUESTION: '' @ py_str fmt (res_text res) @ [CHR 0x0A]
               @ ''ANSWER: ''
                 @ py_str fmt (metadata_get (res_metadata res) ''answer'' ''No specific answer found'')
                 @ [CHR 0x0A]
               @ ''SOURCE: ''
                 @ py_str fmt (metadata_get (res_metadata res) ''source'' ''General Knowledge'')
                 @ [CHR 0x0A])
          (py_enumerate 1 results))"

definition error_response :: "exn \<Rightarrow> response" where
  "error_response e = \<lparr>answer = apology_prefix @ exn_str e @ '')'', sources = []\<rparr>"

text \<open>The body of the \<open>try\<close> block: what it returns or raises, and the calls made.\<close>

definition generate_body ::
  "float_format \<Rightarrow> rag_pipeline \<Rightarrow> nat \<Rightarrow> string \<Rightarrow> (exn + response) \<times> call list" where
  "generate_body fmt p rnd query =
     (if is_greeting query then
        (case choice rnd greeting_responses of
           Inl e \<Rightarrow> (Inl e, [])
         | Inr a \<Rightarrow> (Inr \<lparr>answer = a, sources = []\<rparr>, []))
      else
        (case embedder p query of
           Inl e \<Rightarrow> (Inl e, [EmbedCall query])
         | Inr query_embedding \<Rightarrow>
             (case search (vector_db p) query_embedding (Some query) ''semantic''
                     \<lparr>kw_threshold = Some 0.65, kw_limit = Some 3, kw_category_filter = None\<rparr> of
                Inl e \<Rightarrow> (Inl e, [EmbedCall query, SearchCall query_embedding])
              | Inr results \<Rightarrow>
                  (if results = [] then
                     (case choice rnd fallback_responses of
                        Inl e \<Rightarrow> (Inl e, [EmbedCall query, SearchCall query_embedding])
                      | Inr a \<Rightarrow>
                          (Inr \<lparr>answer = a, sources = []\<rparr>,
                           [EmbedCall query, SearchCall query_embedding]))
                   else
                     (let context = format_context fmt results query
                      in case llm_chain p query context of
                           Inl e \<Rightarrow>
                             (Inl e,
                              [EmbedCall query, SearchCall query_embedding, LLMCall query context])
                         | Inr text \<Rightarrow>
                             (Inr \<lparr>answer = text, sources = results\<rparr>,
                              [EmbedCall query, SearchCall query_embedding,
                               LLMCall query context]))))))"

text \<open>\<open>generate_response\<close>: the body under \<open>except Exception\<close>.\<close>

definition generate_response ::
  "float_format \<Rightarrow> rag_pipeline \<Rightarrow> nat \<Rightarrow> string \<Rightarrow> response \<times> call list" where
  "generate_response fmt p rnd query =
     (case generate_body fmt p rnd query of
        (Inl e, calls) \<Rightarrow> (error_response e, calls)
      | (Inr r, calls) \<Rightarrow> (r, calls))"

text \<open>
  Example collaborators: an embedder that gives the empty vector, the example store, and
  a language model that answers, or one that is out of reach.
\<close>

definition example_format :: float_format where
  "example_format = \<lparr>fmt_percent = (\<lambda>r. str_int (round (r * 100)) @ ''%''),
                      fmt_float = (\<lambda>r. str_int (round r)),
                      fmt_complex = (\<lambda>re im. ''('' @ str_int (round re) @ ''+''
                                               @ str_int (round im) @ ''j)'')\<rparr>"

definition example_pipeline :: rag_pipeline where
  "example_pipeline =
     \<lparr>embedder = (\<lambda>q. Inr []), vector_db = example_client,
      llm_chain = (\<lambda>q c. Inr ''You can return it within 30 days.'')\<rparr>"

definition failing_llm_pipeline :: rag_pipeline where
  "failing_llm_pipeline =
     \<lparr>embedder = (\<lambda>q. Inr []), vector_db = example_client,
      llm_chain = (\<lambda>q c. Inl (Exn ''APITimeoutError'' ''Request timed out.''))\<rparr>"

definition low_score_client :: client_search where
  "low_score_client v qt f k = Inr (take (nat k) [example_hits ! 2])"

definition low_score_pipeline :: rag_pipeline where
  "low_score_pipeline =
     \<lparr>embedder = (\<lambda>q. Inr []), vector_db = low_score_client,
      llm_chain = (\<lambda>q c. Inr ''You can return it within 30 days.'')\<rparr>"

definition failing_embedder_pipeline :: rag_pipeline where
  "failing_embedder_pipeline =
     \<lparr>embedder = (\<lambda>q. Inl (Exn ''RateLimitError'' ''Rate limit reached'')),
      vector_db = example_client,
      llm_chain = (\<lambda>q c. Inr ''You can return it within 30 days.'')\<rparr>"

definition failing_store_pipeline :: rag_pipeline where
  "failing_store_pipeline =
     \<lparr>embedder = (\<lambda>q. Inr []),
      vector_db = failing_client,
      llm_chain = (\<lambda>q c. Inr ''You can return it within 30 days.'')\<rparr>"

section \<open>Properties\<close>

subsection \<open>Conversation store\<close>

lemma map_raise_total:
  "map_raise (\<lambda>m. Inr (f m)) ms = Inr (map f ms)"
  by (induction ms) simp_all

lemma get_history_no_limit:
  "get_history (\<lambda>m. Inr (f m)) (Inr ms) None = (map f ms, [])"
  by (simp add: get_history_def map_raise_total)

lemma get_history_positive_limit:
  assumes "0 < n"
  shows "get_history (\<lambda>m. Inr (f m)) (Inr ms) (Some n)
           = (drop (length ms - min (nat n) (length ms)) (map f ms), [])"
proof -
  have "nat (max 0 (int (length ms) - n)) = length ms - min (nat n) (length ms)"
    using assms by (simp add: min_def max_def) linarith
  then show ?thesis
    using assms by (simp add: get_history_def map_raise_total py_slice_from_def)
qed

lemma get_history_zero_limit:
  "get_history (\<lambda>m. Inr (f m)) (Inr ms) (Some 0) = (map f ms, [])"
  by (simp add: get_history_def map_raise_total py_slice_from_def)

text \<open>
  C9. With \<open>limit = 0\<close> the slice is \<open>history[-0:]\<close>, which is the whole list: a
  history of two stored turns is returned in full, not as its last zero turns.
\<close>

theorem get_history_limit_zero_returns_all:
  "get_history (\<lambda>m. Inr m) (Inr [''turn1'', ''turn2'']) (Some 0)
     = ([''turn1'', ''turn2''], [])"
  by (simp add: get_history_def py_slice_from_def)

subsection \<open>clean\_metadata\<close>

lemma update_fresh:
  "k \<notin> fst ` set al \<Longrightarrow> AList.update k v al = al @ [(k, v)]"
  by (induction al) auto

lemma clean_loop_map:
  assumes "\<forall>(k, v) \<in> set md. clean_value v = Inr (g v)"
    and "distinct (map fst md)"
    and "fst ` set acc \<inter> fst ` set md = {}"
  shows "clean_loop md acc = Inr (acc @ map (\<lambda>(k, v). (k, g v)) md)"
  using assms
proof (induction md arbitrary: acc)
  case Nil
  then show ?case by simp
next
  case (Cons p md)
  obtain k v where p: "p = (k, v)" by (cases p)
  have fresh: "k \<notin> fst ` set acc" using Cons.prems(3) p by auto
  have cv: "clean_value v = Inr (g v)" using Cons.prems(1) p by auto
  have "clean_loop md (acc @ [(k, g v)])
          = Inr ((acc @ [(k, g v)]) @ map (\<lambda>(k, v). (k, g v)) md)"
  proof (rule Cons.IH)
    show "\<forall>(k, v) \<in> set md. clean_value v = Inr (g v)" using Cons.prems(1) by auto
    show "distinct (map fst md)" using Cons.prems(2) by simp
    show "fst ` set (acc @ [(k, g v)]) \<inter> fst ` set md = {}"
      using Cons.prems(2,3) p by auto
  qed
  then show ?case by (simp add: p cv update_fresh [OF fresh])
qed

lemma remove1_single:
  "length (filter (\<lambda>c. c = d) s) \<le> 1 \<Longrightarrow> remove1 d s = filter (\<lambda>c. c \<noteq> d) s"
proof (induction s)
  case Nil
  then show ?case by simp
next
  case (Cons x s)
  show ?case
  proof (cases "x = d")
    case True
    then have "filter (\<lambda>c. c = d) s = []" using Cons.prems by simp
    then have "\<forall>c \<in> set s. c \<noteq> d" by (simp add: filter_empty_conv)
    then have "filter (\<lambda>c. c \<noteq> d) s = s" by (simp add: filter_id_conv)
    with True show ?thesis by simp
  next
    case False
    with Cons show ?thesis by simp
  qed
qed

lemma all_remove1_single:
  assumes "\<not> P d" and "list_all P (remove1 d s)"
  shows "length (filter (\<lambda>c. c = d) s) \<le> 1"
  using assms(2)
proof (induction s)
  case Nil
  then show ?case by simp
next
  case (Cons x s)
  show ?case
  proof (cases "x = d")
    case True
    then have "list_all P s" using Cons.prems by simp
    then have "\<forall>c \<in> set s. c \<noteq> d" using assms(1) by (auto simp: list_all_iff)
    then have "filter (\<lambda>c. c = d) s = []" by (simp add: filter_empty_conv)
    with True show ?thesis by simp
  next
    case False
    with Cons show ?thesis by simp
  qed
qed

lemma dot_not_digit: "\<not> isdigit_char (CHR ''.'')"
  by (simp add: isdigit_char_def is_decimal_char_def)

lemma isdigit_digit_text: "isdigit (remove1 (CHR ''.'') s) = digit_text s"
proof
  assume d: "isdigit (remove1 (CHR ''.'') s)"
  then have one: "length (filter (\<lambda>c. c = CHR ''.'') s) \<le> 1"
    using all_remove1_single [of isdigit_char "CHR ''.''" s] dot_not_digit
    by (simp add: isdigit_def)
  have eq: "remove1 (CHR ''.'') s = filter (\<lambda>c. c \<noteq> CHR ''.'') s"
    by (rule remove1_single [OF one])
  from d one show "digit_text s"
    unfolding eq by (simp add: digit_text_def isdigit_def)
next
  assume t: "digit_text s"
  then have eq: "remove1 (CHR ''.'') s = filter (\<lambda>c. c \<noteq> CHR ''.'') s"
    by (simp add: digit_text_def remove1_single)
  show "isdigit (remove1 (CHR ''.'') s)"
    using t unfolding eq by (simp add: digit_text_def isdigit_def)
qed

lemma decimal_text_digit_text: "decimal_text s \<Longrightarrow> digit_text s"
  by (auto simp: decimal_text_def digit_text_def isdigit_char_def list_all_iff)

lemma dec_val_snoc: "dec_val (s @ [c]) = 10 * dec_val s + digit_val c"
  by (simp add: dec_val_def)

lemma dec_val_append: "dec_val (a @ b) = dec_val a * 10 ^ length b + dec_val b"
proof (induction b rule: rev_induct)
  case Nil
  then show ?case by (simp add: dec_val_def)
next
  case (snoc c b)
  have "dec_val (a @ b @ [c]) = 10 * dec_val (a @ b) + digit_val c"
    using dec_val_snoc [of "a @ b" c] by simp
  then show ?case by (simp add: snoc dec_val_snoc algebra_simps)
qed

lemma filter_split_dot:
  assumes "length (filter (\<lambda>c. c = d) s) \<le> 1"
  shows "filter (\<lambda>c. c \<noteq> d) s = takeWhile (\<lambda>c. c \<noteq> d) s @ drop 1 (dropWhile (\<lambda>c. c \<noteq> d) s)"
  using assms
proof (induction s)
  case Nil
  then show ?case by simp
next
  case (Cons x s)
  show ?case
  proof (cases "x = d")
    case True
    then have "filter (\<lambda>c. c = d) s = []" using Cons.prems by simp
    then have "\<forall>c \<in> set s. c \<noteq> d" by (simp add: filter_empty_conv)
    then have "filter (\<lambda>c. c \<noteq> d) s = s" by (simp add: filter_id_conv)
    with True show ?thesis by simp
  next
    case False
    with Cons show ?thesis by simp
  qed
qed

lemma py_float_decimal_text:
  assumes "decimal_text s"
  shows "py_float s = Inr (decimal_value s)"
proof -
  let ?ip = "takeWhile (\<lambda>c. c \<noteq> CHR ''.'') s"
  let ?fp = "drop 1 (dropWhile (\<lambda>c. c \<noteq> CHR ''.'') s)"
  have split: "filter (\<lambda>c. c \<noteq> CHR ''.'') s = ?ip @ ?fp"
    using assms by (intro filter_split_dot) (simp add: decimal_text_def)
  have ok: "?ip @ ?fp \<noteq> [] \<and> list_all is_decimal_char (?ip @ ?fp)"
    using assms unfolding decimal_text_def split by simp
  have "real (dec_val (?ip @ ?fp)) / 10 ^ length ?fp
          = real (dec_val ?ip) + real (dec_val ?fp) / 10 ^ length ?fp"
    by (simp add: dec_val_append add_divide_distrib)
  then have "decimal_value s = real (dec_val ?ip) + real (dec_val ?fp) / 10 ^ length ?fp"
    unfolding decimal_value_def split .
  with ok show ?thesis by (simp add: py_float_def Let_def)
qed

lemma py_float_raises:
  assumes "digit_text s" and "\<not> decimal_text s"
  shows "\<exists>e. py_float s = Inl e"
proof -
  let ?ip = "takeWhile (\<lambda>c. c \<noteq> CHR ''.'') s"
  let ?fp = "drop 1 (dropWhile (\<lambda>c. c \<noteq> CHR ''.'') s)"
  have split: "filter (\<lambda>c. c \<noteq> CHR ''.'') s = ?ip @ ?fp"
    using assms(1) by (intro filter_split_dot) (simp add: digit_text_def)
  have "\<not> list_all is_decimal_char (filter (\<lambda>c. c \<noteq> CHR ''.'') s)"
    using assms by (simp add: digit_text_def decimal_text_def)
  then have "\<not> (?ip @ ?fp \<noteq> [] \<and> list_all is_decimal_char (?ip @ ?fp))"
    unfolding split by simp
  then show ?thesis by (simp add: py_float_def Let_def)
qed

lemma takeWhile_all: "list_all P s \<Longrightarrow> takeWhile P s = s"
  by (simp add: list_all_iff)

lemma py_int_decimal_text:
  assumes "decimal_text s" and "CHR ''.'' \<notin> set s" and "length s \<le> 4300"
  shows "py_int s = Inr (int (dec_val s))"
proof -
  have "filter (\<lambda>c. c \<noteq> CHR ''.'') s = s" using assms(2) by (auto simp: filter_id_conv)
  with assms(1) have ok: "s \<noteq> []" "list_all is_decimal_char s"
    by (simp_all add: decimal_text_def)
  from ok(2) have tw: "takeWhile is_decimal_char s = s" by (rule takeWhile_all)
  show ?thesis unfolding py_int_def Let_def tw using ok assms(3) by simp
qed

lemma py_int_raises:
  assumes "\<not> decimal_text s \<or> 4300 < length s" and "CHR ''.'' \<notin> set s"
  shows "\<exists>e. py_int s = Inl e"
proof (cases "4300 < length (takeWhile is_decimal_char s)")
  case True
  then show ?thesis by (simp add: py_int_def Let_def)
next
  case False
  have same: "filter (\<lambda>c. c \<noteq> CHR ''.'') s = s" using assms(2) by (auto simp: filter_id_conv)
  have "\<not> (s \<noteq> [] \<and> list_all is_decimal_char s)"
  proof
    assume ok: "s \<noteq> [] \<and> list_all is_decimal_char s"
    then have "takeWhile is_decimal_char s = s" by (simp add: takeWhile_all)
    with False have "\<not> 4300 < length s" by simp
    moreover have "filter (\<lambda>c. c = CHR ''.'') s = []"
      using assms(2) by (auto simp: filter_empty_conv)
    with ok have "decimal_text s"
      by (simp add: decimal_text_def same)
    ultimately show False using assms(1) by simp
  qed
  with False show ?thesis by (simp add: py_int_def Let_def)
qed

lemma clean_value_coerced:
  assumes "convertible v"
  shows "clean_value v = Inr (coerced v)"
proof (cases v)
  case (VStr s)
  show ?thesis
  proof (cases "digit_text s")
    case False
    then have "\<not> decimal_text s" using decimal_text_digit_text by blast
    with False show ?thesis by (simp add: VStr isdigit_digit_text)
  next
    case True
    with assms VStr have dec: "decimal_text s"
      and len: "CHR ''.'' \<in> set s \<or> length s \<le> 4300"
      by (auto simp: raising_text_def)
    show ?thesis
    proof (cases "CHR ''.'' \<in> set s")
      case True
      with dec \<open>digit_text s\<close> show ?thesis
        by (simp add: VStr isdigit_digit_text py_float_decimal_text)
    next
      case False
      with len have "length s \<le> 4300" by simp
      with dec False \<open>digit_text s\<close> show ?thesis
        by (simp add: VStr isdigit_digit_text py_int_decimal_text)
    qed
  qed
qed simp_all

text \<open>
  The values that are not convertible are exactly those on which the code raises.
\<close>

lemma clean_value_raises_iff: "(\<exists>e. clean_value v = Inl e) = (\<not> convertible v)"
proof
  assume "\<exists>e. clean_value v = Inl e"
  then show "\<not> convertible v" using clean_value_coerced [of v] by auto
next
  assume n: "\<not> convertible v"
  then obtain s where v: "v = VStr s" and r: "raising_text s"
    by (cases v) simp_all
  from r have dt: "digit_text s" by (simp add: raising_text_def)
  show "\<exists>e. clean_value v = Inl e"
  proof (cases "CHR ''.'' \<in> set s")
    case True
    with r have "\<not> decimal_text s" by (simp add: raising_text_def)
    from py_float_raises [OF dt this] obtain e where "py_float s = Inl e" by blast
    with True dt show ?thesis by (simp add: v isdigit_digit_text)
  next
    case False
    with r have "\<not> decimal_text s \<or> 4300 < length s" by (auto simp: raising_text_def)
    from py_int_raises [OF this False] obtain e where "py_int s = Inl e" by blast
    with False dt show ?thesis by (simp add: v isdigit_digit_text)
  qed
qed

lemma coerced_scalar: "is_scalar (coerced v)"
  by (cases v) simp_all

text \<open>
  C7 (as amended). For a metadata dictionary none of whose values is a raising text (a
  digit text that holds a digit character other than a decimal digit, or that has no
  dot and more than 4300 digits), \<open>clean_metadata\<close> returns a dictionary with the same
  keys in the same order, every value of a scalar type: null, bool, int and float
  values and strings that are not decimal texts are kept; a decimal text becomes the
  int (no dot) or the float (one dot) it denotes; a numpy integer or floating scalar
  becomes the Python int or float of the same value; a numpy complex scalar becomes
  the int part of its real part; a value of any other type becomes its string form.
\<close>

theorem clean_metadata_coerces:
  assumes "distinct (map fst md)" and "list_all (\<lambda>(k, v). convertible v) md"
  shows "clean_metadata md = Inr (map (\<lambda>(k, v). (k, coerced v)) md)
         \<and> list_all (\<lambda>(k, v). is_scalar v) (map (\<lambda>(k, v). (k, coerced v)) md)"
proof -
  have "\<forall>(k, v) \<in> set md. clean_value v = Inr (coerced v)"
    using assms(2) by (auto simp: list_all_iff clean_value_coerced)
  then have "clean_loop md [] = Inr ([] @ map (\<lambda>(k, v). (k, coerced v)) md)"
    using assms(1) by (intro clean_loop_map) simp_all
  moreover have "list_all (\<lambda>(k, v). is_scalar v) (map (\<lambda>(k, v). (k, coerced v)) md)"
    by (auto simp: list_all_iff coerced_scalar)
  ultimately show ?thesis by (simp add: clean_metadata_def)
qed

lemmas text_simps = digit_text_def decimal_text_def raising_text_def decimal_value_def
  dec_val_def digit_val_def is_decimal_char_def isdigit_char_def py_trunc_def

theorem clean_metadata_coerces_witness:
  "clean_metadata [(''category'', VStr ''billing''), (''chunk_num'', VNpInt 2),
       (''price'', VStr ''19.99''), (''tags'', VOther ''[1, 2]''),
       (''area'', VStr (''9 m'' @ [CHR 0xB2])), (''gain'', VNpComplex 2.5 1)]
     = Inr [(''category'', VStr ''billing''), (''chunk_num'', VInt 2),
       (''price'', VFloat (1999 / 100)), (''tags'', VStr ''[1, 2]''),
       (''area'', VStr (''9 m'' @ [CHR 0xB2])), (''gain'', VInt 2)]"
proof -
  let ?md = "[(''category'', VStr ''billing''), (''chunk_num'', VNpInt 2),
       (''price'', VStr ''19.99''), (''tags'', VOther ''[1, 2]''),
       (''area'', VStr (''9 m'' @ [CHR 0xB2])), (''gain'', VNpComplex 2.5 1)]"
  have d: "distinct (map fst ?md)" by simp
  have p: "list_all (\<lambda>(k, v). convertible v) ?md"
    by (simp add: text_simps)
  have f: "\<lfloor>5 / 2 :: real\<rfloor> = 2" by linarith
  show ?thesis
    using clean_metadata_coerces [OF d p] f
    by (simp add: text_simps)
qed

text \<open>
  C7 as stated fails: the string \<open>"42"\<close> is of a scalar type and is not kept, it
  becomes the int 42.
\<close>

theorem clean_metadata_numeric_string_counterexample:
  "is_scalar (VStr ''42'')
   \<and> clean_metadata [(''k'', VStr ''42'')] = Inr [(''k'', VInt 42)]
   \<and> VInt 42 \<noteq> VStr ''42''"
  by (simp add: clean_metadata_def isdigit_def isdigit_char_def is_decimal_char_def
      py_int_def dec_val_def digit_val_def)

text \<open>
  A numpy number is not of a scalar type and becomes a number, not its string form.
  A string of a superscript digit passes \<open>isdigit\<close> and \<open>int\<close> raises on it, and so
  it does on a string of 4301 digits; a string that holds a superscript digit among
  other characters is kept.
\<close>

lemma clean_metadata_numpy_counterexample:
  "\<not> is_scalar (VNpInt 3) \<and> clean_metadata [(''k'', VNpInt 3)] = Inr [(''k'', VInt 3)]"
  by (simp add: clean_metadata_def)

lemma clean_metadata_superscript_raises:
  "clean_metadata [(''k'', VStr [CHR 0xB2])]
     = Inl (Exn ''ValueError'' (''invalid literal for int() with base 10: '' @ py_repr [CHR 0xB2]))"
  by (simp add: clean_metadata_def isdigit_def isdigit_char_def is_decimal_char_def py_int_def)

lemma clean_metadata_long_digits_raises:
  "clean_metadata [(''k'', VStr (replicate 4301 (CHR ''1'')))]
     = Inl (Exn ''ValueError''
         (''Exceeds the limit (4300 digits) for integer string conversion: value has 4301''
          @ '' digits; use sys.set_int_max_str_digits() to increase the limit''))"
proof -
  let ?s = "replicate 4301 (CHR ''1'')"
  have dec: "is_decimal_char (CHR ''1'')" by (simp add: is_decimal_char_def)
  then have all: "list_all is_decimal_char ?s" by (simp add: list_all_iff)
  have nodot: "CHR ''.'' \<notin> set ?s" by simp
  then have "remove1 (CHR ''.'') ?s = ?s" by (rule remove1_idem)
  moreover have "isdigit ?s"
    using dec by (simp add: isdigit_def isdigit_char_def list_all_iff)
  ultimately have dig: "isdigit (remove1 (CHR ''.'') ?s)" by simp
  have "takeWhile is_decimal_char ?s = ?s" using all by (rule takeWhile_all)
  then have len: "length (takeWhile is_decimal_char ?s) = 4301" by simp
  have n: "str_nat 4301 = ''4301''" by (simp add: str_nat.simps)
  have "py_int ?s = Inl (Exn ''ValueError''
         (''Exceeds the limit (4300 digits) for integer string conversion: value has 4301''
          @ '' digits; use sys.set_int_max_str_digits() to increase the limit''))"
    unfolding py_int_def len Let_def n by simp
  with dig nodot show ?thesis by (simp add: clean_metadata_def)
qed

subsection \<open>semantic\_search\<close>

lemma res_score_format: "format_hit h = Inr r \<Longrightarrow> res_score r = score h"
  by (auto simp: format_hit_def split: option.splits)

lemma filter_hits_length:
  "filter_hits t n hs acc = Inr rs \<Longrightarrow> int (length acc) < n \<Longrightarrow> int (length rs) \<le> n"
proof (induction hs arbitrary: acc)
  case Nil
  then show ?case by simp
next
  case (Cons h hs)
  show ?case
  proof (cases "score h \<ge> t")
    case False
    with Cons show ?thesis by simp
  next
    case True
    with Cons.prems obtain r where r: "format_hit h = Inr r"
      by (auto split: sum.splits)
    show ?thesis
    proof (cases "int (length (acc @ [r])) \<ge> n")
      case True
      with Cons.prems \<open>score h \<ge> t\<close> r show ?thesis by auto
    next
      case False
      with Cons.prems \<open>score h \<ge> t\<close> r
      have "filter_hits t n hs (acc @ [r]) = Inr rs" by simp
      with False show ?thesis by (intro Cons.IH [of "acc @ [r]"]) simp_all
    qed
  qed
qed

lemma filter_hits_scores:
  "filter_hits t n hs acc = Inr rs \<Longrightarrow> \<forall>r \<in> set acc. t \<le> res_score r
     \<Longrightarrow> \<forall>r \<in> set rs. t \<le> res_score r"
proof (induction hs arbitrary: acc)
  case Nil
  then show ?case by simp
next
  case (Cons h hs)
  show ?case
  proof (cases "score h \<ge> t")
    case False
    with Cons show ?thesis by simp
  next
    case True
    with Cons.prems obtain r where r: "format_hit h = Inr r"
      by (auto split: sum.splits)
    have acc': "\<forall>x \<in> set (acc @ [r]). t \<le> res_score x"
      using Cons.prems(2) True res_score_format [OF r] by auto
    show ?thesis
    proof (cases "int (length (acc @ [r])) \<ge> n")
      case True
      with Cons.prems(1) \<open>score h \<ge> t\<close> r have "rs = acc @ [r]" by simp
      with acc' show ?thesis by simp
    next
      case False
      with Cons.prems(1) \<open>score h \<ge> t\<close> r
      have "filter_hits t n hs (acc @ [r]) = Inr rs" by simp
      then show ?thesis using acc' by (rule Cons.IH)
    qed
  qed
qed

text \<open>
  The threshold holds for every limit, and the limit holds from 1 on, whatever the
  store gives; it holds at 0 too when the store gives no more hits than it was asked
  for.
\<close>

lemma semantic_search_scores:
  assumes "semantic_search client qe q t n = Inr rs"
  shows "\<forall>r \<in> set rs. \<not> res_score r < t"
proof -
  from assms obtain hits where "filter_hits t n hits [] = Inr rs"
    by (auto simp: semantic_search_def split: sum.splits)
  then have "\<forall>r \<in> set rs. t \<le> res_score r" by (rule filter_hits_scores) simp
  then show ?thesis by (auto simp: not_less)
qed

lemma semantic_search_length_positive:
  assumes "1 \<le> n" and "semantic_search client qe q t n = Inr rs"
  shows "int (length rs) \<le> n"
proof -
  from assms(2) obtain hits where loop: "filter_hits t n hits [] = Inr rs"
    by (auto simp: semantic_search_def split: sum.splits)
  from assms(1) have "int (length ([]::result list)) < n" by simp
  with loop show ?thesis by (rule filter_hits_length)
qed

lemma semantic_search_length_bounded_store:
  assumes "0 \<le> n"
    and "\<forall>hits. client qe None None (n * 2) = Inr hits \<longrightarrow> int (length hits) \<le> n * 2"
    and "semantic_search client qe q t n = Inr rs"
  shows "int (length rs) \<le> n"
proof (cases "n = 0")
  case True
  from assms(3) obtain hits where hits: "client qe None None (n * 2) = Inr hits"
    and loop: "filter_hits t n hits [] = Inr rs"
    by (auto simp: semantic_search_def split: sum.splits)
  with assms(2) True have "hits = []" by auto
  with loop True show ?thesis by simp
next
  case False
  with assms(1) have "1 \<le> n" by simp
  then show ?thesis using assms(3) by (rule semantic_search_length_positive)
qed


subsection \<open>search\<close>

lemma filter_hits_raises:
  "filter_hits t n hs acc = Inl e \<Longrightarrow> e = key_error ''text''"
  by (induction hs arbitrary: acc)
     (auto simp: format_hit_def split: if_splits sum.splits option.splits)

lemma map_format_hit_raises:
  "map_raise format_hit hs = Inl e \<Longrightarrow> e = key_error ''text''"
  by (induction hs arbitrary: e)
     (auto simp: format_hit_def split: if_splits sum.splits option.splits)

lemma semantic_search_raises:
  assumes "semantic_search client qe q t n = Inl e"
  shows "client qe None None (n * 2) = Inl e \<or> e = key_error ''text''"
  using assms filter_hits_raises
  by (auto simp: semantic_search_def split: sum.splits)

lemma hybrid_search_raises:
  assumes "hybrid_search client text qe cf n = Inl e"
  shows "(\<exists>f. client qe (Some text) f n = Inl e) \<or> e = key_error ''text''"
  using assms map_format_hit_raises
  by (auto simp: hybrid_search_def Let_def split: sum.splits)

text \<open>
  C6. \<open>search\<close> raises the invalid-mode error for every mode other than "semantic" and
  "hybrid", and raises the query-required error in mode "hybrid" without a query. In
  mode "semantic", and in mode "hybrid" with a query, it gives what \<open>semantic_search\<close>
  or \<open>hybrid_search\<close> gives (or the \<open>TypeError\<close> of a keyword the target does not
  take); when the store's client raises no \<open>ValueError\<close>, neither do they.
\<close>

theorem search_mode_errors:
  "(mode \<noteq> ''semantic'' \<and> mode \<noteq> ''hybrid''
      \<longrightarrow> search client qe q mode kw = Inl (invalid_mode_error mode))
   \<and> search client qe None ''hybrid'' kw = Inl query_required_error
   \<and> search client qe q ''semantic'' kw
       = (if kw_category_filter kw \<noteq> None
          then Inl (unexpected_keyword ''semantic_search'' ''category_filter'')
          else semantic_search client qe q
                 (case kw_threshold kw of None \<Rightarrow> 0.7 | Some t \<Rightarrow> t)
                 (case kw_limit kw of None \<Rightarrow> 3 | Some l \<Rightarrow> l))
   \<and> search client qe (Some text) ''hybrid'' kw
       = (if kw_threshold kw \<noteq> None
          then Inl (unexpected_keyword ''hybrid_search'' ''threshold'')
          else hybrid_search client text qe (kw_category_filter kw)
                 (case kw_limit kw of None \<Rightarrow> 5 | Some l \<Rightarrow> l))
   \<and> ((\<forall>v qt f k e. client v qt f k = Inl e \<longrightarrow> exn_class e \<noteq> ''ValueError'')
        \<longrightarrow> (\<forall>e. search client qe q ''semantic'' kw = Inl e
                   \<or> search client qe (Some text) ''hybrid'' kw = Inl e
                 \<longrightarrow> exn_class e \<noteq> ''ValueError''))"
proof (intro conjI impI allI)
  assume "mode \<noteq> ''semantic'' \<and> mode \<noteq> ''hybrid''"
  then show "search client qe q mode kw = Inl (invalid_mode_error mode)"
    by (simp add: search_def invalid_mode_error_def)
next
  show "search client qe None ''hybrid'' kw = Inl query_required_error"
    by (simp add: search_def query_required_error_def)
next
  show "search client qe q ''semantic'' kw
       = (if kw_category_filter kw \<noteq> None
          then Inl (unexpected_keyword ''semantic_search'' ''category_filter'')
          else semantic_search client qe q
                 (case kw_threshold kw of None \<Rightarrow> 0.7 | Some t \<Rightarrow> t)
                 (case kw_limit kw of None \<Rightarrow> 3 | Some l \<Rightarrow> l))"
    by (simp add: search_def)
next
  show "search client qe (Some text) ''hybrid'' kw
       = (if kw_threshold kw \<noteq> None
          then Inl (unexpected_keyword ''hybrid_search'' ''threshold'')
          else hybrid_search client text qe (kw_category_filter kw)
                 (case kw_limit kw of None \<Rightarrow> 5 | Some l \<Rightarrow> l))"
    by (simp add: search_def)
next
  fix e
  assume cl: "\<forall>v qt f k e. client v qt f k = Inl e \<longrightarrow> exn_class e \<noteq> ''ValueError''"
    and r: "search client qe q ''semantic'' kw = Inl e
              \<or> search client qe (Some text) ''hybrid'' kw = Inl e"
  from r show "exn_class e \<noteq> ''ValueError''"
  proof
    assume a: "search client qe q ''semantic'' kw = Inl e"
    show ?thesis
    proof (cases "kw_category_filter kw = None")
      case False
      with a have "e = unexpected_keyword ''semantic_search'' ''category_filter''"
        by (simp add: search_def)
      then show ?thesis by (simp add: unexpected_keyword_def)
    next
      case True
      with a have "semantic_search client qe q
                 (case kw_threshold kw of None \<Rightarrow> 0.7 | Some t \<Rightarrow> t)
                 (case kw_limit kw of None \<Rightarrow> 3 | Some l \<Rightarrow> l) = Inl e"
        by (simp add: search_def)
      from semantic_search_raises [OF this] cl show ?thesis
        by (auto simp: key_error_def)
    qed
  next
    assume a: "search client qe (Some text) ''hybrid'' kw = Inl e"
    show ?thesis
    proof (cases "kw_threshold kw = None")
      case False
      with a have "e = unexpected_keyword ''hybrid_search'' ''threshold''"
        by (simp add: search_def)
      then show ?thesis by (simp add: unexpected_keyword_def)
    next
      case True
      with a have "hybrid_search client text qe (kw_category_filter kw)
                 (case kw_limit kw of None \<Rightarrow> 5 | Some l \<Rightarrow> l) = Inl e"
        by (simp add: search_def)
      from hybrid_search_raises [OF this] cl show ?thesis
        by (auto simp: key_error_def)
    qed
  qed
qed

theorem search_mode_errors_witness:
  "''fuzzy'' \<noteq> ''semantic'' \<and> ''fuzzy'' \<noteq> ''hybrid''
   \<and> search example_client [] (Some ''refund'') ''fuzzy'' no_kwargs = Inl (invalid_mode_error ''fuzzy'')
   \<and> search example_client [] None ''hybrid'' no_kwargs = Inl query_required_error
   \<and> search example_client [] (Some ''refund'') ''semantic'' no_kwargs
       = semantic_search example_client [] (Some ''refund'') 0.7 3
   \<and> search example_client [] (Some ''refund'') ''hybrid'' no_kwargs
       = hybrid_search example_client ''refund'' [] None 5
   \<and> semantic_search example_client [] (Some ''refund'') 0.7 3
       = Inr [\<lparr>res_text = VStr ''q1'', res_metadata = [(''category'', VStr ''a'')],
               res_score = 0.9, res_id = 4\<rparr>,
              \<lparr>res_text = VStr ''q2'', res_metadata = [], res_score = 0.8, res_id = 7\<rparr>]
   \<and> search failing_client [] (Some ''refund'') ''semantic'' no_kwargs
       = Inl (Exn ''ResponseHandlingException'' ''Connection refused'')
   \<and> exn_class (Exn ''ResponseHandlingException'' ''Connection refused'') \<noteq> ''ValueError''"
proof -
  have m: "''fuzzy'' \<noteq> ''semantic'' \<and> ''fuzzy'' \<noteq> ''hybrid''" by simp
  have s: "semantic_search example_client [] (Some ''refund'') 0.7 3
       = Inr [\<lparr>res_text = VStr ''q1'', res_metadata = [(''category'', VStr ''a'')],
               res_score = 0.9, res_id = 4\<rparr>,
              \<lparr>res_text = VStr ''q2'', res_metadata = [], res_score = 0.8, res_id = 7\<rparr>]"
    by (simp add: semantic_search_def example_client_def example_hits_def format_hit_def)
  have c: "\<forall>v qt f k e. failing_client v qt f k = Inl e \<longrightarrow> exn_class e \<noteq> ''ValueError''"
    by (simp add: failing_client_def)
  have f: "search failing_client [] (Some ''refund'') ''semantic'' no_kwargs
       = Inl (Exn ''ResponseHandlingException'' ''Connection refused'')"
    by (simp add: search_def semantic_search_def failing_client_def no_kwargs_def)
  have "\<forall>e. search failing_client [] (Some ''refund'') ''semantic'' no_kwargs = Inl e
              \<or> search failing_client [] (Some ''refund'') ''hybrid'' no_kwargs = Inl e
            \<longrightarrow> exn_class e \<noteq> ''ValueError''"
    using c
    by (rule search_mode_errors [THEN conjunct2, THEN conjunct2, THEN conjunct2, THEN conjunct2,
          THEN mp])
  then have "exn_class (Exn ''ResponseHandlingException'' ''Connection refused'') \<noteq> ''ValueError''"
    by (rule allE) (rule mp, assumption, rule disjI1 [OF f])
  with search_mode_errors [of "''fuzzy''" example_client "[]" "Some ''refund''" no_kwargs "''refund''"]
    m s f
  show ?thesis by (simp add: no_kwargs_def)
qed

subsection \<open>upload\_data\<close>

lemma upload_loop_prefix:
  assumes "uploaded up st (map (\<lambda>i. batch_points es ps i bs) pre) = Some st_k"
  shows "upload_loop up es ps bs st (pre @ rest) = upload_loop up es ps bs st_k rest"
  using assms
proof (induction pre arbitrary: st)
  case Nil
  then show ?case by simp
next
  case (Cons i pre)
  obtain r st1 where u: "up st (batch_points es ps i bs) = (r, st1)"
    by (cases "up st (batch_points es ps i bs)")
  with Cons.prems have r: "r = None" and rest: "uploaded up st1 (map (\<lambda>i. batch_points es ps i bs) pre) = Some st_k"
    by (auto split: option.splits)
  from Cons.IH [OF rest] u r show ?case by (simp add: Let_def)
qed

lemma batch_count:
  fixes n bs :: int
  assumes "0 < bs" and "int k * bs < n"
  shows "k < nat ((n + bs - 1) div bs)"
proof -
  have "(int k + 1) * bs \<le> n + bs - 1" using assms by (simp add: algebra_simps)
  then have "((int k + 1) * bs) div bs \<le> (n + bs - 1) div bs"
    by (rule zdiv_mono1) (use assms in simp)
  then have "int k + 1 \<le> (n + bs - 1) div bs" using assms by simp
  then show ?thesis by linarith
qed

text \<open>
  C8. When the batches before batch \<open>k\<close> upload and batch \<open>k\<close> fails,
  \<open>upload_data\<close> raises the store's exception after printing the batch index with
  the exception's text and a sample record. The store is left in the state the failing
  call left it in, reached from the state after the earlier batches: batch \<open>k\<close>
  was sent once, no later batch was sent and nothing was taken back.
\<close>

theorem upload_data_batch_failure:
  assumes clean: "map_raise clean_metadata metadatas = Inr cleaned"
    and pays: "payloads = map (\<lambda>(text, metadata). make_payload text metadata) (zip texts cleaned)"
    and bs: "0 < batch_size"
    and k: "int k * batch_size < int (length embeddings)"
    and before: "uploaded up st
                   (map (\<lambda>j. batch_points embeddings payloads (int j * batch_size) batch_size) [0..<k])
                 = Some st_k"
    and fails: "up st_k (batch_points embeddings payloads (int k * batch_size) batch_size)
                 = (Some e, st')"
  shows "upload_data up st texts embeddings metadatas batch_size
         = (Inl e, st',
            [Line (''Error uploading batch '' @ str_int (int k) @ '': '' @ exn_str e),
             (case batch_points embeddings payloads (int k * batch_size) batch_size of
                [] \<Rightarrow> Line ''Problematic batch sample: Empty''
              | p # _ \<Rightarrow> SampleLine p)])"
proof -
  let ?m = "nat ((int (length embeddings) + batch_size - 1) div batch_size)"
  let ?start = "\<lambda>j. int j * batch_size"
  have km: "k < ?m" using bs k by (rule batch_count)
  then have "[0..<?m] = [0..<k] @ k # [Suc k..<?m]"
    by (metis upt_conv_Cons le0 le_add_diff_inverse less_imp_le_nat upt_add_eq_append)
  then have starts: "map ?start [0..<?m] = map ?start [0..<k] @ ?start k # map ?start [Suc k..<?m]"
    by simp
  have pre: "uploaded up st (map (\<lambda>i. batch_points embeddings payloads i batch_size) (map ?start [0..<k]))
               = Some st_k"
    using before by (simp add: comp_def)
  have idx: "?start k div batch_size = int k" using bs by simp
  have "upload_loop up embeddings payloads batch_size st (map ?start [0..<?m])
          = upload_loop up embeddings payloads batch_size st_k (?start k # map ?start [Suc k..<?m])"
    unfolding starts by (rule upload_loop_prefix [OF pre])
  also have "\<dots> = (Inl e, st',
            [Line (''Error uploading batch '' @ str_int (int k) @ '': '' @ exn_str e),
             (case batch_points embeddings payloads (int k * batch_size) batch_size of
                [] \<Rightarrow> Line ''Problematic batch sample: Empty''
              | p # _ \<Rightarrow> SampleLine p)])"
    using fails idx by (simp add: Let_def)
  finally show ?thesis
    using clean pays bs by (simp add: upload_data_def py_range0_def Let_def)
qed

lemmas eval_simps = upload_data_def py_range0_def batch_points_def py_slice_def py_enumerate_def
  make_payload_def clean_metadata_def store_upload_def upsert_def str_int_def str_nat.simps
  isdigit_def isdigit_char_def is_decimal_char_def py_int_def dec_val_def digit_val_def
  example_texts_def example_embeddings_def example_metadatas_def example_points_def rejects_id_def
  Let_def

lemma example_clean:
  "map_raise clean_metadata example_metadatas = Inr [[(''category'', VStr ''x'')], [(''n'', VInt 7)], []]"
  by (simp add: eval_simps)

lemma example_payloads:
  "map (\<lambda>(text, metadata). make_payload text metadata)
      (zip example_texts [[(''category'', VStr ''x'')], [(''n'', VInt 7)], []])
   = map pt_payload example_points"
  by (simp add: eval_simps)

lemma example_batches:
  "batch_points example_embeddings (map pt_payload example_points) 0 1 = [example_points ! 0]"
  "batch_points example_embeddings (map pt_payload example_points) 1 1 = [example_points ! 1]"
  "batch_points example_embeddings (map pt_payload example_points) 2 1 = [example_points ! 2]"
  by (simp_all add: eval_simps)

text \<open>
  With three records in batches of one and a service that rejects the second batch, the
  first point stays in the collection, and the store received two calls.
\<close>

theorem upload_data_batch_failure_witness:
  "upload_data (store_upload (rejects_id 1)) ([], []) example_texts example_embeddings
       example_metadatas 1
     = (Inl (Exn ''UnexpectedResponse'' ''timed out''),
        ([(0, example_points ! 0)], [[example_points ! 0], [example_points ! 1]]),
        [Line ''Error uploading batch 1: timed out'', SampleLine (example_points ! 1)])"
proof -
  let ?ps = "map (\<lambda>(text, metadata). make_payload text metadata)
      (zip example_texts [[(''category'', VStr ''x'')], [(''n'', VInt 7)], []])"
  have k: "int 1 * 1 < int (length example_embeddings)"
    by (simp add: example_embeddings_def)
  have before: "uploaded (store_upload (rejects_id 1)) ([], [])
                   (map (\<lambda>j. batch_points example_embeddings ?ps (int j * 1) 1) [0..<1])
                 = Some ([(0, example_points ! 0)], [[example_points ! 0]])"
    unfolding example_payloads
    by (simp add: example_batches) (simp add: eval_simps)
  have fails: "store_upload (rejects_id 1) ([(0, example_points ! 0)], [[example_points ! 0]])
                 (batch_points example_embeddings ?ps (int 1 * 1) 1)
               = (Some (Exn ''UnexpectedResponse'' ''timed out''),
                  ([(0, example_points ! 0)], [[example_points ! 0], [example_points ! 1]]))"
    unfolding example_payloads
    by (simp add: example_batches) (simp add: eval_simps)
  have "(0::int) < 1" by simp
  from upload_data_batch_failure [OF example_clean refl this k before fails]
  show ?thesis
    unfolding example_payloads
    by (simp add: example_batches) (simp add: str_int_def str_nat.simps)
qed

lemma py_slice_window:
  assumes "0 \<le> i" and "0 < b"
  shows "py_slice xs i (i + b) = take (nat b) (drop (nat i) xs)"
proof (cases "i \<le> int (length xs)")
  case True
  have "take (nat (min (int (length xs)) (i + b) - i)) (drop (nat i) xs)
          = take (nat b) (drop (nat i) xs)"
  proof (cases "i + b \<le> int (length xs)")
    case True
    then show ?thesis by (simp add: min_def)
  next
    case False
    then have "length (drop (nat i) xs) \<le> nat (int (length xs) - i)"
      and "length (drop (nat i) xs) \<le> nat b"
      using assms True by auto
    with False show ?thesis by (simp add: min_def)
  qed
  with assms True show ?thesis by (simp add: py_slice_def Let_def min_def)
next
  case False
  with assms show ?thesis by (simp add: py_slice_def Let_def min_def)
qed

lemma window_end: "(i::nat) \<le> n \<Longrightarrow> min b (n - i) + i = min (b + i) n"
  by arith

lemma window_mono: "min (m * b) n \<le> min (Suc m * b) (n::nat)"
  by (rule min.mono) simp_all

lemma batch_points_window:
  assumes "0 < bs"
  shows "batch_points es ps (int j * bs) bs
         = map (record_point es ps)
             [min (j * nat bs) (min (length es) (length ps))
              ..< min (Suc j * nat bs) (min (length es) (length ps))]"
proof -
  let ?b = "nat bs" and ?i = "j * nat bs" and ?n = "min (length es) (length ps)"
  let ?z = "take ?b (drop ?i (zip es ps))"
  have i: "nat (int j * bs) = ?i" using assms by (simp add: nat_mult_distrib)
  have sl: "py_slice es (int j * bs) (int j * bs + bs) = take ?b (drop ?i es)"
    "py_slice ps (int j * bs) (int j * bs + bs) = take ?b (drop ?i ps)"
    using assms by (simp_all add: py_slice_window i)
  have z: "zip (take ?b (drop ?i es)) (take ?b (drop ?i ps)) = ?z"
    by (simp add: take_zip drop_zip)
  have len: "length ?z = min ?b (?n - ?i)" by (simp add: min.commute)
  have "batch_points es ps (int j * bs) bs
          = map (\<lambda>t. \<lparr>pt_id = int j * bs + int t, pt_vector = fst (?z ! t), pt_payload = snd (?z ! t)\<rparr>)
              [0..<length ?z]"
    unfolding batch_points_def sl z py_enumerate_def
    by (rule nth_equalityI) (simp_all add: split_beta)
  also have "\<dots> = map (\<lambda>t. record_point es ps (?i + t)) [0..<length ?z]"
  proof (rule map_cong [OF refl])
    fix t assume "t \<in> set [0..<length ?z]"
    then have t: "t < ?b" "?i + t < length es" "?i + t < length ps" by auto
    then have "?z ! t = (es ! (?i + t), ps ! (?i + t))" by simp
    moreover have "int j * bs + int t = int (?i + t)" using assms by simp
    ultimately show "\<lparr>pt_id = int j * bs + int t, pt_vector = fst (?z ! t), pt_payload = snd (?z ! t)\<rparr>
                     = record_point es ps (?i + t)"
      by (simp add: record_point_def)
  qed
  also have "\<dots> = map (record_point es ps) (map (\<lambda>t. t + ?i) [0..<length ?z])"
    by (simp add: comp_def add.commute)
  also have "map (\<lambda>t. t + ?i) [0..<length ?z] = [?i..<length ?z + ?i]"
    by (rule map_add_upt)
  also have "[?i..<length ?z + ?i] = [min ?i ?n ..< min (Suc j * ?b) ?n]"
  proof (cases "?i \<le> ?n")
    case True
    then have "length ?z + ?i = min (Suc j * ?b) ?n"
      unfolding len using window_end [of ?i ?n ?b] by simp
    moreover have "min ?i ?n = ?i" using True by (rule min.absorb1)
    ultimately show ?thesis by (simp only:)
  next
    case False
    then have "length ?z = 0" and "min ?i ?n = ?n" and "min (Suc j * ?b) ?n = ?n"
      unfolding len by (simp_all add: min_def)
    then show ?thesis by simp
  qed
  finally show ?thesis .
qed

lemma upt_split: "a \<le> b \<Longrightarrow> b \<le> c \<Longrightarrow> [a..<b] @ [b..<c] = [a..<(c::nat)]"
  by (metis le_add_diff_inverse upt_add_eq_append)

lemma batches_concat:
  assumes "0 < bs"
  shows "concat (map (\<lambda>j. batch_points es ps (int j * bs) bs) [0..<m])
         = map (record_point es ps) [0..<min (m * nat bs) (min (length es) (length ps))]"
proof (induction m)
  case 0
  then show ?case by simp
next
  case (Suc m)
  let ?n = "min (length es) (length ps)"
  have "[0..<min (m * nat bs) ?n] @ [min (m * nat bs) ?n ..< min (Suc m * nat bs) ?n]
          = [0..<min (Suc m * nat bs) ?n]"
    by (rule upt_split) (simp, rule window_mono)
  then have "map (record_point es ps) [0..<min (m * nat bs) ?n]
               @ map (record_point es ps) [min (m * nat bs) ?n ..< min (Suc m * nat bs) ?n]
             = map (record_point es ps) [0..<min (Suc m * nat bs) ?n]"
    by (metis map_append)
  then show ?case
    using Suc batch_points_window [OF assms, of es ps m] by simp
qed

lemma upsert_append: "upsert (xs @ ys) coll = upsert ys (upsert xs coll)"
  by (simp add: upsert_def)

lemma store_upload_accepting:
  "store_upload (\<lambda>b. None) (coll, calls) batch = (None, (upsert batch coll, calls @ [batch]))"
  by (simp add: store_upload_def)

lemma upload_loop_accepting:
  "upload_loop (store_upload (\<lambda>b. None)) es ps bs (coll, calls) starts
     = (Inr (), (upsert (concat (map (\<lambda>i. batch_points es ps i bs) starts)) coll,
                calls @ map (\<lambda>i. batch_points es ps i bs) starts), [])"
proof (induction starts arbitrary: coll calls)
  case Nil
  then show ?case by (simp add: upsert_def)
next
  case (Cons i starts)
  show ?case
    by (simp add: Let_def store_upload_accepting Cons.IH upsert_append)
qed

lemma map_of_upsert_records:
  "map_of (upsert (map (record_point es ps) [0..<n]) coll) j
     = (if 0 \<le> j \<and> j < int n then Some (record_point es ps (nat j)) else map_of coll j)"
proof (induction n)
  case 0
  then show ?case by (auto simp: upsert_def)
next
  case (Suc n)
  have "upsert (map (record_point es ps) [0..<Suc n]) coll
          = AList.update (int n) (record_point es ps n) (upsert (map (record_point es ps) [0..<n]) coll)"
    by (simp add: upsert_append) (simp add: upsert_def record_point_def)
  then show ?case
    using Suc by (auto simp: update_conv')
qed

lemma batch_total:
  fixes bs :: int
  assumes "0 < bs"
  shows "n \<le> nat ((int n + bs - 1) div bs) * nat bs"
proof -
  have "int n + bs - 1 = ((int n + bs - 1) div bs) * bs + (int n + bs - 1) mod bs" by simp
  moreover have "(int n + bs - 1) mod bs \<le> bs - 1" using assms by simp
  ultimately have "int n \<le> ((int n + bs - 1) div bs) * bs" by linarith
  moreover have "0 \<le> (int n + bs - 1) div bs" using assms by (simp add: pos_imp_zdiv_nonneg_iff)
  ultimately have "int n \<le> int (nat ((int n + bs - 1) div bs) * nat bs)"
    using assms by simp
  then show ?thesis by linarith
qed

text \<open>
  C10. In one call of \<open>upload_data\<close> that the store accepts, the points sent, over
  all its batches in order, are the records at positions \<open>0, 1, \<dots>\<close> with their
  position as id, whatever the collection held before; afterwards the collection holds
  the call's point under each of these ids, in place of a point an earlier call stored
  there, and what it held under every other id.
\<close>

theorem upload_data_assigns_positions:
  assumes clean: "map_raise clean_metadata metadatas = Inr cleaned"
    and pays: "payloads = map (\<lambda>(text, metadata). make_payload text metadata) (zip texts cleaned)"
    and bs: "0 < batch_size"
    and n: "n = min (length embeddings) (length payloads)"
  shows "\<exists>batches coll'.
           upload_data (store_upload (\<lambda>b. None)) (coll, calls) texts embeddings metadatas batch_size
             = (Inr (), (coll', calls @ batches), [])
           \<and> concat batches = map (record_point embeddings payloads) [0..<n]
           \<and> (\<forall>j. map_of coll' j
                  = (if 0 \<le> j \<and> j < int n then Some (record_point embeddings payloads (nat j))
                     else map_of coll j))"
proof -
  let ?m = "nat ((int (length embeddings) + batch_size - 1) div batch_size)"
  let ?batches = "map (\<lambda>j. batch_points embeddings payloads (int j * batch_size) batch_size) [0..<?m]"
  have "length embeddings \<le> ?m * nat batch_size" using bs by (rule batch_total)
  then have "min (?m * nat batch_size) n = n" using n by simp
  then have sent: "concat ?batches = map (record_point embeddings payloads) [0..<n]"
    using batches_concat [OF bs, of embeddings payloads ?m] n by simp
  have "upload_data (store_upload (\<lambda>b. None)) (coll, calls) texts embeddings metadatas batch_size
          = (Inr (), (upsert (concat ?batches) coll, calls @ ?batches), [])"
    using clean pays bs
    by (simp add: upload_data_def py_range0_def Let_def upload_loop_accepting comp_def)
  moreover have "\<forall>j. map_of (upsert (concat ?batches) coll) j
                  = (if 0 \<le> j \<and> j < int n then Some (record_point embeddings payloads (nat j))
                     else map_of coll j)"
    unfolding sent by (simp add: map_of_upsert_records)
  ultimately show ?thesis using sent by blast
qed

theorem upload_data_assigns_positions_witness:
  "upload_data (store_upload (\<lambda>b. None)) (upsert example_points [], []) [''d'', ''e'']
       [[4], [5]] [[], []] 2
     = (Inr (),
        ([(0, \<lparr>pt_id = 0, pt_vector = [4], pt_payload = [(''text'', VStr ''d'')]\<rparr>),
          (1, \<lparr>pt_id = 1, pt_vector = [5], pt_payload = [(''text'', VStr ''e'')]\<rparr>),
          (2, example_points ! 2)],
         [[\<lparr>pt_id = 0, pt_vector = [4], pt_payload = [(''text'', VStr ''d'')]\<rparr>,
           \<lparr>pt_id = 1, pt_vector = [5], pt_payload = [(''text'', VStr ''e'')]\<rparr>]]),
        [])
   \<and> record_point [[4], [5]] [[(''text'', VStr ''d'')], [(''text'', VStr ''e'')]] 1
       = \<lparr>pt_id = 1, pt_vector = [5], pt_payload = [(''text'', VStr ''e'')]\<rparr>"
proof -
  have clean: "map_raise clean_metadata [[], []] = Inr [[], []]"
    by (simp add: clean_metadata_def)
  have pays: "[[(''text'', VStr ''d'')], [(''text'', VStr ''e'')]]
                = map (\<lambda>(text, metadata). make_payload text metadata) (zip [''d'', ''e''] [[], []])"
    by (simp add: make_payload_def)
  have n: "(2::nat) = min (length [[4], [5::real]])
                        (length [[(''text'', VStr ''d'')], [(''text'', VStr ''e'')]])"
    by simp
  have e: "upload_data (store_upload (\<lambda>b. None)) (upsert example_points [], []) [''d'', ''e'']
       [[4], [5]] [[], []] 2
     = (Inr (),
        ([(0, \<lparr>pt_id = 0, pt_vector = [4], pt_payload = [(''text'', VStr ''d'')]\<rparr>),
          (1, \<lparr>pt_id = 1, pt_vector = [5], pt_payload = [(''text'', VStr ''e'')]\<rparr>),
          (2, example_points ! 2)],
         [[\<lparr>pt_id = 0, pt_vector = [4], pt_payload = [(''text'', VStr ''d'')]\<rparr>,
           \<lparr>pt_id = 1, pt_vector = [5], pt_payload = [(''text'', VStr ''e'')]\<rparr>]]),
        [])"
    by (simp add: eval_simps upt_conv_Cons)
  have r: "record_point [[4], [5]] [[(''text'', VStr ''d'')], [(''text'', VStr ''e'')]] 1
       = \<lparr>pt_id = 1, pt_vector = [5], pt_payload = [(''text'', VStr ''e'')]\<rparr>"
    by (simp add: record_point_def)
  have "(0::int) < 2" by simp
  from upload_data_assigns_positions [OF clean pays this n, of "upsert example_points []" "[]"]
  obtain batches coll' where
    "upload_data (store_upload (\<lambda>b. None)) (upsert example_points [], []) [''d'', ''e'']
       [[4], [5]] [[], []] 2 = (Inr (), (coll', [] @ batches), [])"
    by blast
  with e r show ?thesis by simp
qed

subsection \<open>Response pipeline\<close>

text \<open>
  Stripping does not matter to the greeting test: no greeting phrase starts or ends
  with a stripped character, so a query is a greeting exactly when its lowercased text
  contains a phrase.
\<close>

lemma dropWhile_keeps_infix:
  assumes "g \<noteq> []" and "\<not> P (hd g)"
  shows "\<exists>ps'. dropWhile P (ps @ g @ ss) = ps' @ g @ ss"
proof (induction ps)
  case Nil
  from assms have "dropWhile P (g @ ss) = g @ ss" by (cases g) simp_all
  then show ?case by (intro exI [of _ "[]"]) simp
next
  case (Cons x ps)
  show ?case
  proof (cases "P x")
    case True
    with Cons show ?thesis by simp
  next
    case False
    then show ?thesis by (intro exI [of _ "x # ps"]) simp
  qed
qed

lemma strip_keeps_infix:
  assumes "g \<noteq> []" and "hd g \<notin> set chars" and "last g \<notin> set chars" and "sublist g s"
  shows "sublist g (strip chars s)"
proof -
  let ?P = "\<lambda>c. c \<in> set chars"
  from assms(4) obtain ps ss where s: "s = ps @ g @ ss" by (auto simp: sublist_def)
  from dropWhile_keeps_infix [of g ?P ps ss] assms(1,2)
  obtain ps' where l: "dropWhile ?P s = ps' @ g @ ss" unfolding s by blast
  have "rev g \<noteq> []" and "\<not> ?P (hd (rev g))"
    using assms(1,3) by (simp_all add: hd_rev)
  with dropWhile_keeps_infix [of "rev g" ?P "rev ss" "rev ps'"]
  obtain ss' where "dropWhile ?P (rev ss @ rev g @ rev ps') = ss' @ rev g @ rev ps'" by blast
  then have "strip chars s = ps' @ g @ rev ss'"
    by (simp add: strip_def l)
  then show ?thesis by (auto simp: sublist_def)
qed

lemma strip_sublist: "sublist (strip chars s) s"
proof -
  let ?P = "\<lambda>c. c \<in> set chars"
  have "suffix (dropWhile ?P (rev (dropWhile ?P s))) (rev (dropWhile ?P s))"
    by (rule suffix_dropWhile)
  then have "prefix (strip chars s) (dropWhile ?P s)"
    by (simp add: strip_def suffix_to_prefix)
  then have "sublist (strip chars s) (dropWhile ?P s)" by (rule prefix_imp_sublist)
  moreover have "sublist (dropWhile ?P s) s"
    by (rule suffix_imp_sublist) (rule suffix_dropWhile)
  ultimately show ?thesis by (rule sublist_order.order_trans)
qed

lemma greetings_ends:
  assumes "g \<in> set greetings"
  shows "g \<noteq> [] \<and> hd g \<notin> set '' ?!.,'' \<and> last g \<notin> set '' ?!.,''"
  using assms unfolding greetings_def by auto

lemma is_greeting_iff:
  "is_greeting query = (\<exists>g \<in> set greetings. sublist g (lower query))"
proof
  assume "is_greeting query"
  then obtain g where g: "g \<in> set greetings" "sublist g (strip '' ?!.,'' (lower query))"
    by (auto simp: is_greeting_def list_ex_iff)
  from g(2) strip_sublist have "sublist g (lower query)"
    by (rule sublist_order.order_trans)
  with g(1) show "\<exists>g \<in> set greetings. sublist g (lower query)" by blast
next
  assume "\<exists>g \<in> set greetings. sublist g (lower query)"
  then obtain g where g: "g \<in> set greetings" "sublist g (lower query)" by blast
  from greetings_ends [OF g(1)] g(2) have "sublist g (strip '' ?!.,'' (lower query))"
    by (intro strip_keeps_infix) simp_all
  with g(1) show "is_greeting query"
    by (auto simp: is_greeting_def list_ex_iff)
qed

lemma choice_greeting:
  "\<exists>a \<in> set greeting_responses. choice rnd greeting_responses = Inr a"
proof -
  have "greeting_responses \<noteq> []" by (simp add: greeting_responses_def)
  then show ?thesis by (simp add: choice_def)
qed

lemma choice_fallback:
  "\<exists>a \<in> set fallback_responses. choice rnd fallback_responses = Inr a"
proof -
  have "fallback_responses \<noteq> []" by (simp add: fallback_responses_def)
  then show ?thesis by (simp add: choice_def)
qed

lemma retrieval_call:
  "search client qe (Some query) ''semantic''
       \<lparr>kw_threshold = Some 0.65, kw_limit = Some 3, kw_category_filter = None\<rparr>
     = semantic_search client qe (Some query) 0.65 3"
  by (simp add: search_def)

text \<open>
  C2. For every query whose lowercased text, stripped of any set of surrounding
  characters, contains a greeting phrase, \<open>generate_response\<close> returns an answer of
  the fixed greeting responses with no sources, and calls no collaborator: no
  embedding, no retrieval.
\<close>

theorem greeting_short_circuit:
  assumes "\<exists>g \<in> set greetings. sublist g (strip chars (lower query))"
  shows "\<exists>a \<in> set greeting_responses.
           generate_response fmt p rnd query = (\<lparr>answer = a, sources = []\<rparr>, [])"
proof -
  from assms obtain g where g: "g \<in> set greetings" "sublist g (strip chars (lower query))"
    by blast
  from g(2) strip_sublist have "sublist g (lower query)"
    by (rule sublist_order.order_trans)
  with g(1) have "is_greeting query" unfolding is_greeting_iff by blast
  moreover obtain a where "a \<in> set greeting_responses" "choice rnd greeting_responses = Inr a"
    using choice_greeting by blast
  ultimately show ?thesis
    by (auto simp: generate_response_def generate_body_def)
qed

theorem greeting_short_circuit_witness:
  "generate_response example_format example_pipeline 4 ''Hi there''
     = (\<lparr>answer = greeting_responses ! 1, sources = []\<rparr>, [])"
proof -
  have h: "\<exists>g \<in> set greetings. sublist g (strip '' ?!.,'' (lower ''Hi there''))"
    by code_simp
  from greeting_short_circuit [OF h, of example_format example_pipeline 4]
  obtain a where "generate_response example_format example_pipeline 4 ''Hi there''
                    = (\<lparr>answer = a, sources = []\<rparr>, [])"
    by blast
  moreover have "is_greeting ''Hi there''" by code_simp
  ultimately show ?thesis
    by (simp add: generate_response_def generate_body_def choice_def greeting_responses_def)
qed

text \<open>
  C3. For every query that is not a greeting and for which the semantic search at
  threshold 0.65 and limit 3 returns the empty sequence, \<open>generate_response\<close> returns
  an answer of the fixed fallback responses with no sources.
\<close>

theorem fallback_on_empty_retrieval:
  assumes "\<not> is_greeting query"
    and "embedder p query = Inr qe"
    and "semantic_search (vector_db p) qe (Some query) 0.65 3 = Inr []"
  shows "\<exists>a \<in> set fallback_responses.
           generate_response fmt p rnd query
             = (\<lparr>answer = a, sources = []\<rparr>, [EmbedCall query, SearchCall qe])"
proof -
  obtain a where "a \<in> set fallback_responses" "choice rnd fallback_responses = Inr a"
    using choice_fallback by blast
  with assms show ?thesis
    unfolding generate_response_def generate_body_def retrieval_call by auto
qed

lemma not_greeting_refund: "\<not> is_greeting ''refund policy''"
  by code_simp

lemma low_score_search:
  "semantic_search low_score_client [] (Some ''refund policy'') 0.65 3 = Inr []"
  by (simp add: semantic_search_def low_score_client_def example_hits_def)

theorem fallback_on_empty_retrieval_witness:
  "generate_response example_format low_score_pipeline 5 ''refund policy''
     = (\<lparr>answer = fallback_responses ! 2, sources = []\<rparr>,
        [EmbedCall ''refund policy'', SearchCall []])"
proof -
  have e: "embedder low_score_pipeline ''refund policy'' = Inr []"
    and s: "semantic_search (vector_db low_score_pipeline) [] (Some ''refund policy'') 0.65 3 = Inr []"
    by (simp_all only: low_score_pipeline_def rag_pipeline.select_convs low_score_search)
  from fallback_on_empty_retrieval [OF not_greeting_refund e s, of example_format 5]
  obtain a where "generate_response example_format low_score_pipeline 5 ''refund policy''
             = (\<lparr>answer = a, sources = []\<rparr>, [EmbedCall ''refund policy'', SearchCall []])"
    by blast
  with not_greeting_refund e s show ?thesis
    unfolding generate_response_def generate_body_def retrieval_call
    by (simp add: choice_def fallback_responses_def)
qed

text \<open>
  C4. \<open>generate_response\<close> returns a response whatever happens: when the embedding,
  the retrieval or the language-model call raises, and whenever the body raises at all,
  the answer is the apology text with the exception's text and the sources are empty.
  Context assembly has no raising branch.
\<close>

theorem generate_response_error_boundary:
  "(\<forall>e. \<not> is_greeting query \<and> embedder p query = Inl e
        \<longrightarrow> fst (generate_response fmt p rnd query)
              = \<lparr>answer = apology_prefix @ exn_str e @ '')'', sources = []\<rparr>)
   \<and> (\<forall>qe e. \<not> is_greeting query \<and> embedder p query = Inr qe
          \<and> semantic_search (vector_db p) qe (Some query) 0.65 3 = Inl e
        \<longrightarrow> fst (generate_response fmt p rnd query)
              = \<lparr>answer = apology_prefix @ exn_str e @ '')'', sources = []\<rparr>)
   \<and> (\<forall>qe rs e. \<not> is_greeting query \<and> embedder p query = Inr qe
          \<and> semantic_search (vector_db p) qe (Some query) 0.65 3 = Inr rs \<and> rs \<noteq> []
          \<and> llm_chain p query (format_context fmt rs query) = Inl e
        \<longrightarrow> fst (generate_response fmt p rnd query)
              = \<lparr>answer = apology_prefix @ exn_str e @ '')'', sources = []\<rparr>)
   \<and> (\<forall>e. fst (generate_body fmt p rnd query) = Inl e
        \<longrightarrow> fst (generate_response fmt p rnd query)
              = \<lparr>answer = apology_prefix @ exn_str e @ '')'', sources = []\<rparr>)"
proof (intro conjI allI impI)
  fix e
  assume "\<not> is_greeting query \<and> embedder p query = Inl e"
  then show "fst (generate_response fmt p rnd query)
              = \<lparr>answer = apology_prefix @ exn_str e @ '')'', sources = []\<rparr>"
    by (simp add: generate_response_def generate_body_def error_response_def)
next
  fix qe e
  assume "\<not> is_greeting query \<and> embedder p query = Inr qe
          \<and> semantic_search (vector_db p) qe (Some query) 0.65 3 = Inl e"
  then show "fst (generate_response fmt p rnd query)
              = \<lparr>answer = apology_prefix @ exn_str e @ '')'', sources = []\<rparr>"
    unfolding generate_response_def generate_body_def retrieval_call
    by (simp add: error_response_def)
next
  fix qe rs e
  assume "\<not> is_greeting query \<and> embedder p query = Inr qe
          \<and> semantic_search (vector_db p) qe (Some query) 0.65 3 = Inr rs \<and> rs \<noteq> []
          \<and> llm_chain p query (format_context fmt rs query) = Inl e"
  then show "fst (generate_response fmt p rnd query)
              = \<lparr>answer = apology_prefix @ exn_str e @ '')'', sources = []\<rparr>"
    unfolding generate_response_def generate_body_def retrieval_call
    by (simp add: error_response_def Let_def)
next
  fix e
  assume "fst (generate_body fmt p rnd query) = Inl e"
  then show "fst (generate_response fmt p rnd query)
              = \<lparr>answer = apology_prefix @ exn_str e @ '')'', sources = []\<rparr>"
    by (cases "generate_body fmt p rnd query")
       (simp add: generate_response_def error_response_def)
qed

lemma example_search:
  "semantic_search example_client [] (Some ''refund policy'') 0.65 3
     = Inr [\<lparr>res_text = VStr ''q1'', res_metadata = [(''category'', VStr ''a'')],
             res_score = 0.9, res_id = 4\<rparr>,
            \<lparr>res_text = VStr ''q2'', res_metadata = [], res_score = 0.8, res_id = 7\<rparr>]"
  by (simp add: semantic_search_def example_client_def example_hits_def format_hit_def)

theorem generate_response_error_boundary_witness:
  "fst (generate_response example_format failing_embedder_pipeline 0 ''refund policy'')
     = \<lparr>answer = apology_prefix @ ''Rate limit reached'' @ '')'', sources = []\<rparr>
   \<and> fst (generate_response example_format failing_store_pipeline 0 ''refund policy'')
     = \<lparr>answer = apology_prefix @ ''Connection refused'' @ '')'', sources = []\<rparr>
   \<and> fst (generate_response example_format failing_llm_pipeline 0 ''refund policy'')
     = \<lparr>answer = apology_prefix @ ''Request timed out.'' @ '')'', sources = []\<rparr>"
proof -
  have a: "embedder failing_embedder_pipeline ''refund policy''
             = Inl (Exn ''RateLimitError'' ''Rate limit reached'')"
    by (simp add: failing_embedder_pipeline_def)
  have b: "embedder failing_store_pipeline ''refund policy'' = Inr []"
    "semantic_search (vector_db failing_store_pipeline) [] (Some ''refund policy'') 0.65 3
       = Inl (Exn ''ResponseHandlingException'' ''Connection refused'')"
    by (simp_all add: failing_store_pipeline_def semantic_search_def failing_client_def)
  have c: "embedder failing_llm_pipeline ''refund policy'' = Inr []"
    "semantic_search (vector_db failing_llm_pipeline) [] (Some ''refund policy'') 0.65 3
       = Inr [\<lparr>res_text = VStr ''q1'', res_metadata = [(''category'', VStr ''a'')],
               res_score = 0.9, res_id = 4\<rparr>,
              \<lparr>res_text = VStr ''q2'', res_metadata = [], res_score = 0.8, res_id = 7\<rparr>]"
    "llm_chain failing_llm_pipeline ''refund policy''
       (format_context example_format
          [\<lparr>res_text = VStr ''q1'', res_metadata = [(''category'', VStr ''a'')],
               res_score = 0.9, res_id = 4\<rparr>,
           \<lparr>res_text = VStr ''q2'', res_metadata = [], res_score = 0.8, res_id = 7\<rparr>]
          ''refund policy'')
       = Inl (Exn ''APITimeoutError'' ''Request timed out.'')"
    by (simp_all only: failing_llm_pipeline_def rag_pipeline.select_convs example_search)
  have ne: "[\<lparr>res_text = VStr ''q1'', res_metadata = [(''category'', VStr ''a'')],
               res_score = 0.9, res_id = 4\<rparr>,
             \<lparr>res_text = VStr ''q2'', res_metadata = [], res_score = 0.8, res_id = 7\<rparr>] \<noteq> []"
    by simp
  note ng = not_greeting_refund
  have "fst (generate_response example_format failing_embedder_pipeline 0 ''refund policy'')
     = \<lparr>answer = apology_prefix @ exn_str (Exn ''RateLimitError'' ''Rate limit reached'') @ '')'',
         sources = []\<rparr>"
    by (rule generate_response_error_boundary [THEN conjunct1, rule_format,
          OF conjI [OF ng a]])
  moreover
  have "fst (generate_response example_format failing_store_pipeline 0 ''refund policy'')
     = \<lparr>answer = apology_prefix
           @ exn_str (Exn ''ResponseHandlingException'' ''Connection refused'') @ '')'',
         sources = []\<rparr>"
    by (rule generate_response_error_boundary [THEN conjunct2, THEN conjunct1, rule_format,
          OF conjI [OF ng conjI [OF b]]])
  moreover
  have "fst (generate_response example_format failing_llm_pipeline 0 ''refund policy'')
     = \<lparr>answer = apology_prefix @ exn_str (Exn ''APITimeoutError'' ''Request timed out.'') @ '')'',
         sources = []\<rparr>"
    by (rule generate_response_error_boundary
          [THEN conjunct2, THEN conjunct2, THEN conjunct1, rule_format,
           OF conjI [OF ng conjI [OF c(1) conjI [OF c(2) conjI [OF ne c(3)]]]]])
  ultimately show ?thesis by (simp only: exn.sel simp_thms)
qed

lemma generate_response_cases:
  "fst (generate_response fmt p rnd query) =
     (if is_greeting query
      then \<lparr>answer = greeting_responses ! (rnd mod length greeting_responses), sources = []\<rparr>
      else case embedder p query of
             Inl e \<Rightarrow> error_response e
           | Inr qe \<Rightarrow>
               (case semantic_search (vector_db p) qe (Some query) 0.65 3 of
                  Inl e \<Rightarrow> error_response e
                | Inr rs \<Rightarrow>
                    if rs = []
                    then \<lparr>answer = fallback_responses ! (rnd mod length fallback_responses),
                           sources = []\<rparr>
                    else (case llm_chain p query (format_context fmt rs query) of
                            Inl e \<Rightarrow> error_response e
                          | Inr a \<Rightarrow> \<lparr>answer = a, sources = rs\<rparr>)))"
proof -
  have "greeting_responses \<noteq> []" "fallback_responses \<noteq> []"
    by (simp_all add: greeting_responses_def fallback_responses_def)
  then show ?thesis
    unfolding generate_response_def generate_body_def retrieval_call
    by (simp add: choice_def Let_def split: sum.splits)
qed

text \<open>
  C5 (as amended). The sources are empty after a greeting, after an empty retrieval and
  whenever the body raises; they are non-empty exactly when retrieval returned a
  non-empty sequence and the language-model call then returned, and they are that
  sequence.
\<close>

theorem sources_nonempty_iff:
  "(is_greeting query \<longrightarrow> sources (fst (generate_response fmt p rnd query)) = [])
   \<and> (\<forall>qe. \<not> is_greeting query \<and> embedder p query = Inr qe
          \<and> semantic_search (vector_db p) qe (Some query) 0.65 3 = Inr []
        \<longrightarrow> sources (fst (generate_response fmt p rnd query)) = [])
   \<and> (\<forall>e. fst (generate_body fmt p rnd query) = Inl e
        \<longrightarrow> sources (fst (generate_response fmt p rnd query)) = [])
   \<and> (sources (fst (generate_response fmt p rnd query)) \<noteq> []
        \<longleftrightarrow> \<not> is_greeting query
            \<and> (\<exists>qe rs a. embedder p query = Inr qe
                  \<and> semantic_search (vector_db p) qe (Some query) 0.65 3 = Inr rs \<and> rs \<noteq> []
                  \<and> llm_chain p query (format_context fmt rs query) = Inr a))
   \<and> (\<forall>qe rs a. \<not> is_greeting query \<and> embedder p query = Inr qe
          \<and> semantic_search (vector_db p) qe (Some query) 0.65 3 = Inr rs \<and> rs \<noteq> []
          \<and> llm_chain p query (format_context fmt rs query) = Inr a
        \<longrightarrow> sources (fst (generate_response fmt p rnd query)) = rs)"
proof (intro conjI allI impI)
  assume "is_greeting query"
  then show "sources (fst (generate_response fmt p rnd query)) = []"
    by (simp add: generate_response_cases)
next
  fix qe
  assume "\<not> is_greeting query \<and> embedder p query = Inr qe
          \<and> semantic_search (vector_db p) qe (Some query) 0.65 3 = Inr []"
  then show "sources (fst (generate_response fmt p rnd query)) = []"
    unfolding generate_response_cases by simp
next
  fix e
  assume "fst (generate_body fmt p rnd query) = Inl e"
  then show "sources (fst (generate_response fmt p rnd query)) = []"
    by (cases "generate_body fmt p rnd query")
       (simp add: generate_response_def error_response_def)
next
  show "sources (fst (generate_response fmt p rnd query)) \<noteq> []
        \<longleftrightarrow> \<not> is_greeting query
            \<and> (\<exists>qe rs a. embedder p query = Inr qe
                  \<and> semantic_search (vector_db p) qe (Some query) 0.65 3 = Inr rs \<and> rs \<noteq> []
                  \<and> llm_chain p query (format_context fmt rs query) = Inr a)"
    unfolding generate_response_cases
    by (auto simp: error_response_def split: sum.splits)
next
  fix qe rs a
  assume "\<not> is_greeting query \<and> embedder p query = Inr qe
          \<and> semantic_search (vector_db p) qe (Some query) 0.65 3 = Inr rs \<and> rs \<noteq> []
          \<and> llm_chain p query (format_context fmt rs query) = Inr a"
  then show "sources (fst (generate_response fmt p rnd query)) = rs"
    unfolding generate_response_cases by simp
qed

theorem sources_nonempty_iff_witness:
  "sources (fst (generate_response example_format example_pipeline 0 ''refund policy''))
     = [\<lparr>res_text = VStr ''q1'', res_metadata = [(''category'', VStr ''a'')],
             res_score = 0.9, res_id = 4\<rparr>,
        \<lparr>res_text = VStr ''q2'', res_metadata = [], res_score = 0.8, res_id = 7\<rparr>]
   \<and> sources (fst (generate_response example_format example_pipeline 0 ''Hi there'')) = []
   \<and> sources (fst (generate_response example_format low_score_pipeline 0 ''refund policy'')) = []
   \<and> sources (fst (generate_response example_format failing_llm_pipeline 0 ''refund policy'')) = []"
proof -
  let ?rs = "[\<lparr>res_text = VStr ''q1'', res_metadata = [(''category'', VStr ''a'')],
             res_score = 0.9, res_id = 4\<rparr>,
        \<lparr>res_text = VStr ''q2'', res_metadata = [], res_score = 0.8, res_id = 7\<rparr>]"
  note ng = not_greeting_refund
  have e: "embedder example_pipeline ''refund policy'' = Inr []"
    and s: "semantic_search (vector_db example_pipeline) [] (Some ''refund policy'') 0.65 3 = Inr ?rs"
    and l: "llm_chain example_pipeline ''refund policy''
              (format_context example_format ?rs ''refund policy'')
              = Inr ''You can return it within 30 days.''"
    by (simp_all only: example_pipeline_def rag_pipeline.select_convs example_search)
  have ne: "?rs \<noteq> []" by simp
  have "sources (fst (generate_response example_format example_pipeline 0 ''refund policy'')) = ?rs"
    by (rule sources_nonempty_iff [THEN conjunct2, THEN conjunct2, THEN conjunct2, THEN conjunct2,
          rule_format, OF conjI [OF ng conjI [OF e conjI [OF s conjI [OF ne l]]]]])
  moreover have g: "is_greeting ''Hi there''" by code_simp
  have "sources (fst (generate_response example_format example_pipeline 0 ''Hi there'')) = []"
    by (rule sources_nonempty_iff [THEN conjunct1, rule_format, OF g])
  moreover
  have e2: "embedder low_score_pipeline ''refund policy'' = Inr []"
    and s2: "semantic_search (vector_db low_score_pipeline) [] (Some ''refund policy'') 0.65 3 = Inr []"
    by (simp_all only: low_score_pipeline_def rag_pipeline.select_convs low_score_search)
  have "sources (fst (generate_response example_format low_score_pipeline 0 ''refund policy'')) = []"
    by (rule sources_nonempty_iff [THEN conjunct2, THEN conjunct1, rule_format,
          OF conjI [OF ng conjI [OF e2 s2]]])
  moreover
  have e3: "embedder failing_llm_pipeline ''refund policy'' = Inr []"
    and s3: "semantic_search (vector_db failing_llm_pipeline) [] (Some ''refund policy'') 0.65 3
               = Inr ?rs"
    and l3: "\<And>c. llm_chain failing_llm_pipeline ''refund policy'' c
              = Inl (Exn ''APITimeoutError'' ''Request timed out.'')"
    by (simp_all only: failing_llm_pipeline_def rag_pipeline.select_convs example_search)
  have "fst (generate_body example_format failing_llm_pipeline 0 ''refund policy'')
          = Inl (Exn ''APITimeoutError'' ''Request timed out.'')"
    by (simp only: generate_body_def retrieval_call ng e3 s3 l3 sum.case list.distinct
        if_False Let_def fst_conv)
  then have "sources (fst (generate_response example_format failing_llm_pipeline 0 ''refund policy'')) = []"
    by (rule sources_nonempty_iff [THEN conjunct2, THEN conjunct2, THEN conjunct1, rule_format])
  ultimately show ?thesis by (simp only: simp_thms)
qed

text \<open>
  C5 as stated fails: retrieval returns two results, the language-model call raises,
  and the sources are empty.
\<close>

theorem sources_llm_failure_counterexample:
  "semantic_search (vector_db failing_llm_pipeline) [] (Some ''refund policy'') 0.65 3
     = Inr [\<lparr>res_text = VStr ''q1'', res_metadata = [(''category'', VStr ''a'')],
             res_score = 0.9, res_id = 4\<rparr>,
            \<lparr>res_text = VStr ''q2'', res_metadata = [], res_score = 0.8, res_id = 7\<rparr>]
   \<and> [\<lparr>res_text = VStr ''q1'', res_metadata = [(''category'', VStr ''a'')],
             res_score = 0.9, res_id = 4\<rparr>,
        \<lparr>res_text = VStr ''q2'', res_metadata = [], res_score = 0.8, res_id = 7\<rparr>] \<noteq> []
   \<and> sources (fst (generate_response example_format failing_llm_pipeline 0 ''refund policy'')) = []"
proof -
  have s: "semantic_search (vector_db failing_llm_pipeline) [] (Some ''refund policy'') 0.65 3
     = Inr [\<lparr>res_text = VStr ''q1'', res_metadata = [(''category'', VStr ''a'')],
             res_score = 0.9, res_id = 4\<rparr>,
            \<lparr>res_text = VStr ''q2'', res_metadata = [], res_score = 0.8, res_id = 7\<rparr>]"
    and e: "embedder failing_llm_pipeline ''refund policy'' = Inr []"
    and l: "\<And>c. llm_chain failing_llm_pipeline ''refund policy'' c
              = Inl (Exn ''APITimeoutError'' ''Request timed out.'')"
    by (simp_all only: failing_llm_pipeline_def rag_pipeline.select_convs example_search)
  have "sources (fst (generate_response example_format failing_llm_pipeline 0 ''refund policy'')) = []"
    by (simp only: generate_response_cases not_greeting_refund e s l sum.case list.distinct
        if_False error_response_def response.select_convs)
  with s show ?thesis by simp
qed

end
